theory Spec2Isabelle
  imports Complex_Main "HOL-Library.Char_ord"
begin

section \<open>JavaScript values used by the services\<close>

text \<open>
  A JavaScript string is a \<^typ>\<open>string\<close>, one \<^typ>\<open>char\<close> per code unit (code units up to
  255). A value that may be \<open>null\<close> or \<open>undefined\<close> is an option. A thrown \<open>Error\<close> is the
  left component of a sum and carries the error's message. The numbers the services compute
  with are IEEE 754 doubles (section \<open>Numbers\<close>); a confidence level, which is a literal
  that is only stored, is written as the decimal it is.
\<close>

type_synonym 'a result = "string + 'a"

definition to_upper :: "char \<Rightarrow> char" where
  "to_upper c = (let n = (of_char c :: nat) in if 97 \<le> n \<and> n \<le> 122 then char_of (n - 32) else c)"

definition is_digit :: "char \<Rightarrow> bool" where
  "is_digit c = (48 \<le> (of_char c :: nat) \<and> (of_char c :: nat) \<le> 57)"

definition is_space :: "char \<Rightarrow> bool" where
  \<comment> \<open>the white space and line terminator code units below 256\<close>
  "is_space c = ((of_char c :: nat) \<in> {9, 10, 11, 12, 13, 32, 160})"

definition is_letter :: "char \<Rightarrow> bool" where
  "is_letter c = (65 \<le> (of_char (to_upper c) :: nat) \<and> (of_char (to_upper c) :: nat) \<le> 90)"

definition newline :: char where
  "newline = CHR 0x0A"

definition dquote :: char where
  "dquote = CHR 0x22"

definition squote :: char where
  "squote = CHR 0x27"

definition js_or :: "string \<Rightarrow> string \<Rightarrow> string" where
  \<comment> \<open>\<open>a || b\<close> on strings: the empty string is falsy\<close>
  "js_or a b = (if a \<noteq> [] then a else b)"

definition opt_str :: "string option \<Rightarrow> string" where
  \<comment> \<open>\<open>x || ''\<close>\<close>
  "opt_str x = (case x of None \<Rightarrow> [] | Some s \<Rightarrow> s)"

definition trim :: "string \<Rightarrow> string" where
  "trim s = rev (dropWhile is_space (rev (dropWhile is_space s)))"

fun join :: "string \<Rightarrow> string list \<Rightarrow> string" where
  "join sep [] = []"
| "join sep [x] = x"
| "join sep (x # y # ys) = x @ sep @ join sep (y # ys)"

fun split :: "char \<Rightarrow> string \<Rightarrow> string list" where
  "split sep [] = [[]]"
| "split sep (c # cs) =
     (if c = sep then [] # split sep cs
      else (case split sep cs of [] \<Rightarrow> [[c]] | w # ws \<Rightarrow> (c # w) # ws))"

definition digit_char :: "nat \<Rightarrow> char" where
  "digit_char d = char_of (48 + d)"

function show_nat :: "nat \<Rightarrow> string" where
  "show_nat n = (if n < 10 then [digit_char n] else show_nat (n div 10) @ [digit_char (n mod 10)])"
  by pat_completeness auto
termination
  by (relation "measure id") auto

definition show_int :: "int \<Rightarrow> string" where
  "show_int i = (if i < 0 then CHR ''-'' # show_nat (nat (- i)) else show_nat (nat i))"

definition set_add :: "'a \<Rightarrow> 'a list \<Rightarrow> 'a list" where
  \<comment> \<open>\<open>Set.prototype.add\<close>: a Set keeps insertion order and holds a value once\<close>
  "set_add x xs = (if x \<in> set xs then xs else xs @ [x])"

section \<open>Numbers\<close>

text \<open>
  A JavaScript number is an IEEE 754 binary64 value: a finite number, the negative zero, an
  infinity or NaN. An arithmetic operation returns the exact result rounded to the nearest
  double, ties to the even significand, with gradual underflow and with overflow to an
  infinity; \<open>Math.sqrt\<close> is taken to be the correctly rounded square root. \<open>Fin 0\<close> is the
  positive zero. The type has a value \<open>Fin x\<close> for every real \<open>x\<close>, also where no double is
  \<open>x\<close>; what is stated for all values of the type holds for the doubles among them.
\<close>

datatype double = Fin real | NegZero | PInf | NInf | NaN

definition pow2 :: "int \<Rightarrow> real" where
  "pow2 e = (if 0 \<le> e then 2 ^ nat e else 1 / 2 ^ nat (- e))"

function expo :: "real \<Rightarrow> int" where
  \<comment> \<open>the binary exponent of a non-zero number: \<open>2 ^ e \<le> |x| < 2 ^ (e + 1)\<close>\<close>
  "expo x = (if x = 0 then 0
             else if 2 \<le> \<bar>x\<bar> then expo (x / 2) + 1
             else if \<bar>x\<bar> < 1 then expo (x * 2) - 1
             else 0)"
  by pat_completeness auto
termination
proof (relation "measure (\<lambda>x. nat \<bar>\<lfloor>log 2 \<bar>x\<bar>\<rfloor>\<bar>)")
  show "wf (measure (\<lambda>x. nat \<bar>\<lfloor>log 2 \<bar>x\<bar>\<rfloor>\<bar>))" by simp
next
  fix x :: real
  assume x: "x \<noteq> 0" and big: "2 \<le> \<bar>x\<bar>"
  have "log 2 \<bar>x / 2\<bar> = log 2 \<bar>x\<bar> - 1"
    using x by (simp add: log_divide)
  then have step: "\<lfloor>log 2 \<bar>x / 2\<bar>\<rfloor> = \<lfloor>log 2 \<bar>x\<bar>\<rfloor> - 1"
    by simp
  have "1 \<le> log 2 \<bar>x\<bar>"
    using big by (simp add: le_log_iff)
  then have "1 \<le> \<lfloor>log 2 \<bar>x\<bar>\<rfloor>"
    by (simp add: le_floor_iff)
  with step show "(x / 2, x) \<in> measure (\<lambda>x. nat \<bar>\<lfloor>log 2 \<bar>x\<bar>\<rfloor>\<bar>)"
    unfolding in_measure by arith
next
  fix x :: real
  assume x: "x \<noteq> 0" and small: "\<bar>x\<bar> < 1"
  have "log 2 \<bar>x * 2\<bar> = log 2 \<bar>x\<bar> + 1"
    using x by (simp add: abs_mult log_mult)
  then have step: "\<lfloor>log 2 \<bar>x * 2\<bar>\<rfloor> = \<lfloor>log 2 \<bar>x\<bar>\<rfloor> + 1"
    by simp
  have "log 2 \<bar>x\<bar> < 0"
    using small x by simp
  then have "\<lfloor>log 2 \<bar>x\<bar>\<rfloor> < 0"
    by (simp add: floor_less_iff)
  with step show "(x * 2, x) \<in> measure (\<lambda>x. nat \<bar>\<lfloor>log 2 \<bar>x\<bar>\<rfloor>\<bar>)"
    unfolding in_measure by arith
qed

declare expo.simps [simp del]

definition round_even :: "real \<Rightarrow> int" where
  \<comment> \<open>the nearest integer, the even one of two that are equally near\<close>
  "round_even r =
     (let f = \<lfloor>r\<rfloor> in
      if r - of_int f < 1 / 2 then f
      else if 1 / 2 < r - of_int f then f + 1
      else if even f then f else f + 1)"

definition quantum :: "real \<Rightarrow> real" where
  \<comment> \<open>the distance between the doubles around \<open>x\<close>: 53 significant bits, and \<open>2 ^ - 1074\<close>
      below the smallest normal number\<close>
  "quantum x = pow2 (max (expo x) (- 1022) - 52)"

definition nearest :: "real \<Rightarrow> real" where
  "nearest x = of_int (round_even (x / quantum x)) * quantum x"

definition negative :: "double \<Rightarrow> bool" where
  \<comment> \<open>the sign bit\<close>
  "negative d = (case d of Fin x \<Rightarrow> x < 0 | NegZero \<Rightarrow> True | NInf \<Rightarrow> True | _ \<Rightarrow> False)"

definition is_zero :: "double \<Rightarrow> bool" where
  "is_zero d = (d = Fin 0 \<or> d = NegZero)"

definition is_inf :: "double \<Rightarrow> bool" where
  "is_inf d = (d = PInf \<or> d = NInf)"

definition val :: "double \<Rightarrow> real" where
  "val d = (case d of Fin x \<Rightarrow> x | _ \<Rightarrow> 0)"

definition signed_zero :: "bool \<Rightarrow> double" where
  "signed_zero neg = (if neg then NegZero else Fin 0)"

definition signed_inf :: "bool \<Rightarrow> double" where
  "signed_inf neg = (if neg then NInf else PInf)"

definition to_double :: "bool \<Rightarrow> real \<Rightarrow> double" where
  \<comment> \<open>the double for an exact result \<open>x\<close>; \<open>neg\<close> is the sign of a zero result of the operation\<close>
  "to_double neg x =
     (let r = nearest x in
      if 2 ^ 1024 \<le> \<bar>r\<bar> then signed_inf (x < 0)
      else if r = 0 then signed_zero (if x = 0 then neg else x < 0)
      else Fin r)"

definition literal :: "real \<Rightarrow> double" where
  \<comment> \<open>a decimal literal of the program text\<close>
  "literal x = to_double False x"

definition fmul :: "double \<Rightarrow> double \<Rightarrow> double" where
  "fmul a b =
     (if a = NaN \<or> b = NaN then NaN
      else if is_inf a \<or> is_inf b
      then (if is_zero a \<or> is_zero b then NaN else signed_inf (negative a \<noteq> negative b))
      else to_double (negative a \<noteq> negative b) (val a * val b))"

definition fadd :: "double \<Rightarrow> double \<Rightarrow> double" where
  "fadd a b =
     (if a = NaN \<or> b = NaN then NaN
      else if is_inf a then (if is_inf b \<and> b \<noteq> a then NaN else a)
      else if is_inf b then b
      else to_double (negative a \<and> negative b) (val a + val b))"

definition fneg :: "double \<Rightarrow> double" where
  "fneg a = (case a of Fin x \<Rightarrow> if x = 0 then NegZero else Fin (- x) | NegZero \<Rightarrow> Fin 0
             | PInf \<Rightarrow> NInf | NInf \<Rightarrow> PInf | NaN \<Rightarrow> NaN)"

definition fsub :: "double \<Rightarrow> double \<Rightarrow> double" where
  "fsub a b = fadd a (fneg b)"

definition fdiv :: "double \<Rightarrow> double \<Rightarrow> double" where
  "fdiv a b =
     (if a = NaN \<or> b = NaN then NaN
      else if is_inf a then (if is_inf b then NaN else signed_inf (negative a \<noteq> negative b))
      else if is_inf b then signed_zero (negative a \<noteq> negative b)
      else if is_zero b
      then (if is_zero a then NaN else signed_inf (negative a \<noteq> negative b))
      else to_double (negative a \<noteq> negative b) (val a / val b))"

definition fsqrt :: "double \<Rightarrow> double" where
  "fsqrt a =
     (case a of
        Fin x \<Rightarrow> if x < 0 then NaN else to_double False (sqrt x)
      | NegZero \<Rightarrow> NegZero
      | PInf \<Rightarrow> PInf
      | _ \<Rightarrow> NaN)"

definition strict_eq :: "double \<Rightarrow> double \<Rightarrow> bool" where
  \<comment> \<open>\<open>a === b\<close>: NaN equals nothing and the two zeros are equal\<close>
  "strict_eq a b = (a \<noteq> NaN \<and> b \<noteq> NaN \<and> (a = b \<or> is_zero a \<and> is_zero b))"

definition fless :: "double \<Rightarrow> double \<Rightarrow> bool" where
  \<comment> \<open>\<open>a < b\<close>\<close>
  "fless a b =
     (a \<noteq> NaN \<and> b \<noteq> NaN \<and> a \<noteq> PInf \<and> b \<noteq> NInf \<and> (a = NInf \<or> b = PInf \<or> val a < val b))"

definition fle :: "double \<Rightarrow> double \<Rightarrow> bool" where
  \<comment> \<open>\<open>a <= b\<close>\<close>
  "fle a b = (fless a b \<or> strict_eq a b)"

fun insert_by :: "('a \<Rightarrow> 'a \<Rightarrow> double) \<Rightarrow> 'a \<Rightarrow> 'a list \<Rightarrow> 'a list" where
  "insert_by cmp x [] = [x]"
| "insert_by cmp x (y # ys) =
     (if fless (Fin 0) (cmp x y) then y # insert_by cmp x ys else x # y # ys)"

definition array_sort :: "('a \<Rightarrow> 'a \<Rightarrow> double) \<Rightarrow> 'a list \<Rightarrow> 'a list" where
  \<comment> \<open>\<open>Array.prototype.sort(cmp)\<close>: stable; \<open>a\<close> comes after \<open>b\<close> when \<open>cmp(a, b) > 0\<close>, and a NaN
      from the comparator counts as \<open>0\<close>. Where the comparator is not consistent (it is, unless
      it returns NaN) the language leaves the order to the engine; the order here is then
      that of an insertion sort\<close>
  "array_sort cmp xs = foldr (insert_by cmp) xs []"

section \<open>Values of any type\<close>

text \<open>
  A value parsed from a JSON response. An object has an identity, by which a \<open>Set\<close>
  compares it, and its properties, each name once; an array is an object whose properties
  are its indices.
\<close>

datatype jsval = JUndefined | JNull | JBool bool | JNum double | JStr string
  | JObj nat "(string \<times> jsval) list"

fun truthy :: "jsval \<Rightarrow> bool" where
  "truthy JUndefined = False"
| "truthy JNull = False"
| "truthy (JBool b) = b"
| "truthy (JNum d) = (d \<noteq> NaN \<and> \<not> is_zero d)"
| "truthy (JStr s) = (s \<noteq> [])"
| "truthy (JObj i ps) = True"

definition get_property :: "(string \<times> jsval) list \<Rightarrow> string \<Rightarrow> jsval" where
  "get_property ps name = (case map_of ps name of None \<Rightarrow> JUndefined | Some v \<Rightarrow> v)"

fun forEach :: "('a \<Rightarrow> 's \<Rightarrow> 's result) \<Rightarrow> 'a list \<Rightarrow> 's \<Rightarrow> 's result" where
  \<comment> \<open>\<open>xs.forEach(f)\<close> with a callback that updates a state or throws\<close>
  "forEach f [] s = Inr s"
| "forEach f (x # xs) s = (case f x s of Inl m \<Rightarrow> Inl m | Inr s' \<Rightarrow> forEach f xs s')"

section \<open>Regular expressions\<close>

text \<open>
  The regular expressions of the services, all with the \<open>i\<close> flag, and a backtracking
  matcher that lists the ways a pattern can match at the start of a text in the order in
  which \<open>RegExp.prototype.exec\<close> tries them. A matcher state is the text still to be read
  and the text of capture group 1.
\<close>

datatype cls = Digit | Space | Word | Letter | AnyChar | Lit char | Union cls cls

fun in_cls :: "cls \<Rightarrow> char \<Rightarrow> bool" where
  "in_cls Digit c = is_digit c"
| "in_cls Space c = is_space c"
| "in_cls Letter c = is_letter c"
| "in_cls Word c = (is_letter c \<or> is_digit c \<or> c = CHR ''_'')"
| "in_cls AnyChar c = True"
| "in_cls (Lit d) c = (to_upper c = to_upper d)"
| "in_cls (Union a b) c = (in_cls a c \<or> in_cls b c)"

datatype rx = C cls | Seq rx rx | Alt rx rx | Opt rx | Plus cls | Star cls | LazyStar cls
  | Grp rx | Ahead rx | End | Eps

type_synonym mstate = "string \<times> string"

fun rmatch :: "rx \<Rightarrow> mstate \<Rightarrow> mstate list" where
  "rmatch (C k) (s, g) = (case s of [] \<Rightarrow> [] | c # cs \<Rightarrow> if in_cls k c then [(cs, g)] else [])"
| "rmatch (Seq a b) st = concat (map (rmatch b) (rmatch a st))"
| "rmatch (Alt a b) st = rmatch a st @ rmatch b st"
| "rmatch (Opt a) st = rmatch a st @ [st]"
| "rmatch (Plus k) (s, g) =
     map (\<lambda>i. (drop i s, g)) (rev [1 ..< Suc (length (takeWhile (in_cls k) s))])"
| "rmatch (Star k) (s, g) =
     map (\<lambda>i. (drop i s, g)) (rev [0 ..< Suc (length (takeWhile (in_cls k) s))])"
| "rmatch (LazyStar k) (s, g) =
     map (\<lambda>i. (drop i s, g)) [0 ..< Suc (length (takeWhile (in_cls k) s))]"
| "rmatch (Grp a) (s, g) = map (\<lambda>(s', _). (s', take (length s - length s') s)) (rmatch a (s, g))"
| "rmatch (Ahead a) st = (if rmatch a st = [] then [] else [st])"
| "rmatch End (s, g) = (if s = [] then [(s, g)] else [])"
| "rmatch Eps st = [st]"

definition str :: "string \<Rightarrow> rx" where
  "str s = foldr (\<lambda>c r. Seq (C (Lit c)) r) s Eps"

fun seqs :: "rx list \<Rightarrow> rx" where
  "seqs [] = Eps"
| "seqs (r # rs) = Seq r (seqs rs)"

fun rexec :: "rx \<Rightarrow> string \<Rightarrow> (string \<times> string) option" where
  \<comment> \<open>the leftmost match: the text of group 1 and the text after the match\<close>
  "rexec r [] = (case rmatch r ([], []) of [] \<Rightarrow> None | (rest, g) # _ \<Rightarrow> Some (g, rest))"
| "rexec r (c # cs) =
     (case rmatch r (c # cs, []) of [] \<Rightarrow> rexec r cs | (rest, g) # _ \<Rightarrow> Some (g, rest))"

fun consumes :: "rx \<Rightarrow> bool" where
  \<comment> \<open>every match of the pattern reads at least one character\<close>
  "consumes (C k) = True"
| "consumes (Seq a b) = (consumes a \<or> consumes b)"
| "consumes (Alt a b) = (consumes a \<and> consumes b)"
| "consumes (Plus k) = True"
| "consumes (Grp a) = consumes a"
| "consumes r = False"

section \<open>Fetched cases and the precedent collection\<close>

record search_doc =
  tid :: "string option"
  sd_title :: string
  headline :: string

record case_data =
  kanoonUrl :: "string option"
  sourceId :: "string option"
  title :: string
  caseNumber :: string
  year :: "int option"
  court :: string
  ipcSections :: "string list"
  cd_keywords :: "string list"
  facts :: string
  decision :: string
  summary :: string

record lawyer =
  lawyer_name :: string
  specialization :: string

text \<open>
  The \<open>CasePrecedent\<close> collection is a list of documents in insertion order. The \<open>embedding\<close>
  field of a stored document is absent (\<open>Missing\<close>), present with the value \<open>null\<close> (\<open>Null\<close>)
  or present with a vector: the MongoDB filter \<open>{ embedding: { $exists: true } }\<close> selects
  the documents that contain the field, also those where it is \<open>null\<close>. The schema of the
  model declares no path \<open>sourceId\<close> and no path \<open>kanoonUrl\<close> and gives \<open>embedding\<close> the
  default \<open>null\<close>, so a document created through the model is stored without the first two
  and with a \<open>null\<close> embedding (\<open>new_doc\<close> below); a stored document has them, or lacks the
  \<open>embedding\<close> field, only when it was written to the collection by other means. A filter
  is applied as it is written, and its value \<open>undefined\<close> or \<open>null\<close> matches a document
  without the field. Reads and updates of the collection do not fail; a save may
  (\<open>db_save_error\<close> below).
\<close>

datatype embedding_field = Missing | Null | Vec "double list"

record precedent = case_data +
  doc_id :: nat
  embedding :: embedding_field

type_synonym store = "precedent list"

section \<open>Embedding service\<close>

text \<open>
  The outside world is a record of what the collaborators answer. An answer is the message
  of the error thrown or the payload.
  \<^item> \<open>xai_key_set\<close>: whether \<open>XAI_API_KEY\<close> is set; \<open>embeddings_api\<close> and \<open>chat_api\<close>: the
    xAI endpoints, the second by prompt and system prompt, its \<open>content\<close> possibly \<open>null\<close>;
  \<^item> \<open>searchCases\<close> and \<open>fetchCaseDetails\<close>: the outcome of the two calls of the Kanoon
    service, a search by query and a detail fetch by document identifier (with or without
    the citation limits); what they return depends on the remote API only, and every
    statement below holds whatever they return;
  \<^item> \<open>db_save_error\<close>: the error of \<open>save()\<close> on a new document, if any, in a given state of
    the collection (a failed validation, a duplicate key of the unique index on \<open>caseNumber\<close>,
    a lost connection);
  \<^item> \<open>lawyer_query\<close>: the lawyers found for a case type;
  \<^item> \<open>current_year\<close> and \<open>clock\<close>: \<open>new Date()\<close>.
\<close>

record env =
  xai_key_set :: bool
  embeddings_api :: "string \<Rightarrow> double list result"
  chat_api :: "string \<Rightarrow> string \<Rightarrow> string option result"
  searchCases :: "string \<Rightarrow> search_doc list result"
  fetchCaseDetails :: "string option \<Rightarrow> bool \<Rightarrow> case_data result"
  db_save_error :: "store \<Rightarrow> case_data \<Rightarrow> string option"
  lawyer_query :: "string \<Rightarrow> lawyer list result"
  current_year :: int
  clock :: nat

definition createEmbedding :: "env \<Rightarrow> string \<Rightarrow> double list result" where
  "createEmbedding e text =
     (if \<not> xai_key_set e
      then Inl ''Failed to create embedding: XAI_API_KEY is not set. Embedding features are disabled.''
      else (case embeddings_api e (take 8000 text) of
              Inl m \<Rightarrow> Inl (''Failed to create embedding: '' @ m)
            | Inr v \<Rightarrow> Inr v))"

definition dotProduct :: "double list \<Rightarrow> double list \<Rightarrow> double" where
  \<comment> \<open>\<open>vecA.reduce((sum, a, i) => sum + a * vecB[i], 0)\<close> on vectors of one length\<close>
  "dotProduct a b = foldl (\<lambda>s (x, y). fadd s (fmul x y)) (Fin 0) (zip a b)"

definition magnitude :: "double list \<Rightarrow> double" where
  "magnitude v = fsqrt (foldl (\<lambda>s x. fadd s (fmul x x)) (Fin 0) v)"

definition cosineSimilarity :: "double list option \<Rightarrow> double list option \<Rightarrow> double" where
  "cosineSimilarity vecA vecB =
     (case vecA of None \<Rightarrow> Fin 0 | Some a \<Rightarrow>
      (case vecB of None \<Rightarrow> Fin 0 | Some b \<Rightarrow>
        if length a \<noteq> length b then Fin 0
        else let dp = dotProduct a b; ma = magnitude a; mb = magnitude b
             in if strict_eq ma (Fin 0) \<or> strict_eq mb (Fin 0) then Fin 0
                else fdiv dp (fmul ma mb)))"

section \<open>Vector store\<close>

definition emb_value :: "embedding_field \<Rightarrow> double list option" where
  "emb_value f = (case f of Vec v \<Rightarrow> Some v | _ \<Rightarrow> None)"

definition find_embedding_exists :: "bool \<Rightarrow> store \<Rightarrow> precedent list" where
  \<comment> \<open>\<open>CasePrecedent.find({ embedding: { $exists: b } })\<close>\<close>
  "find_embedding_exists b st = filter (\<lambda>d. (embedding d \<noteq> Missing) = b) st"

definition findByIdAndUpdate :: "nat \<Rightarrow> embedding_field \<Rightarrow> store \<Rightarrow> store" where
  \<comment> \<open>\<open>CasePrecedent.findByIdAndUpdate(id, { embedding })\<close>\<close>
  "findByIdAndUpdate i f st = map (\<lambda>d. if doc_id d = i then d\<lparr>embedding := f\<rparr> else d) st"

definition show_year :: "int option \<Rightarrow> string" where
  "show_year y = (case y of None \<Rightarrow> ''null'' | Some n \<Rightarrow> show_int n)"

definition caseText :: "precedent \<Rightarrow> string" where
  "caseText d = concat
     [[newline], ''        Case Number: '', caseNumber d,
      [newline], ''        Title: '', title d,
      [newline], ''        Year: '', show_year (year d),
      [newline], ''        Court: '', court d,
      [newline], ''        IPC Sections: '', join '', '' (ipcSections d),
      [newline], ''        Facts: '', facts d,
      [newline], ''        Summary: '', summary d,
      [newline], ''        Decision: '', decision d,
      [newline], ''        Keywords: '', join '', '' (cd_keywords d),
      [newline], ''      '']"

definition indexCase :: "env \<Rightarrow> store \<Rightarrow> precedent \<Rightarrow> store result" where
  "indexCase e st d =
     (case createEmbedding e (caseText d) of
        Inl m \<Rightarrow> Inl m
      | Inr v \<Rightarrow> Inr (findByIdAndUpdate (doc_id d) (Vec v) st))"

fun indexLoop :: "env \<Rightarrow> precedent list \<Rightarrow> store \<Rightarrow> store" where
  "indexLoop e [] st = st"
| "indexLoop e (d # ds) st =
     indexLoop e ds (case indexCase e st d of Inl m \<Rightarrow> st | Inr st' \<Rightarrow> st')"

definition indexAllCases :: "env \<Rightarrow> store \<Rightarrow> nat \<times> store" where
  "indexAllCases e st =
     (let cases = find_embedding_exists False st in (length cases, indexLoop e cases st))"

definition deleteIndex :: "store \<Rightarrow> nat \<Rightarrow> store" where
  "deleteIndex st i = findByIdAndUpdate i Null st"

datatype case_ref = LocalId nat | KanoonId string

record retrieved_case =
  caseId :: case_ref
  rc_caseNumber :: string
  rc_title :: string
  similarity :: double
  content :: string
  source :: "string option"
  verdict :: "string option"

definition scoreCase :: "double list \<Rightarrow> precedent \<Rightarrow> retrieved_case" where
  \<comment> \<open>the callback of \<open>indexedCases.map\<close>\<close>
  "scoreCase queryEmbedding d =
     \<lparr>caseId = LocalId (doc_id d), rc_caseNumber = caseNumber d, rc_title = title d,
      similarity = cosineSimilarity (Some queryEmbedding) (emb_value (embedding d)),
      content = js_or (summary d) (js_or (facts d) (title d)),
      source = None, verdict = None\<rparr>"

definition bySimilarity :: "retrieved_case \<Rightarrow> retrieved_case \<Rightarrow> double" where
  \<comment> \<open>the comparator \<open>(a, b) => b.similarity - a.similarity\<close>\<close>
  "bySimilarity a b = fsub (similarity b) (similarity a)"

definition searchSimilarCases :: "env \<Rightarrow> store \<Rightarrow> string \<Rightarrow> nat \<Rightarrow> retrieved_case list result" where
  "searchSimilarCases e st query k =
     (let indexedCases = find_embedding_exists True st in
      if indexedCases = [] then Inr []
      else (case createEmbedding e query of
              Inl m \<Rightarrow> Inl m
            | Inr queryEmbedding \<Rightarrow>
                Inr (take k (array_sort bySimilarity
                       (map (scoreCase queryEmbedding) indexedCases)))))"

section \<open>Indian Kanoon service\<close>

text \<open>
  The part of a fetched document that \<open>_extractIPCSections\<close> reads: the elements of
  \<open>ipc_sections\<close> when that is an array, values of any type, and four texts.
\<close>

record kanoon_data =
  ipc_sections :: "jsval list option"
  kd_title :: "string option"
  kd_judgment :: "string option"
  kd_facts :: "string option"
  kd_summary :: "string option"

definition sectionNo :: rx where
  \<comment> \<open>\<open>(\d+[A-Z]?)\<close>\<close>
  "sectionNo = Grp (Seq (Plus Digit) (Opt (C Letter)))"

definition ipcPatterns :: "rx list" where
  "ipcPatterns =
     [seqs [str ''Section'', Plus Space, sectionNo, Plus Space,
            Alt (str ''IPC'') (Alt (str ''I.P.C'') (str ''of the IPC''))],
      seqs [str ''S.'', Plus Space, sectionNo, Plus Space, Alt (str ''IPC'') (str ''I.P.C'')],
      seqs [str ''IPC'', Plus Space, str ''Section'', Plus Space, sectionNo],
      seqs [str ''Article'', Plus Space, Grp (Plus Digit)]]"

definition cannot_read :: "string \<Rightarrow> string" where
  \<comment> \<open>the message of the \<open>TypeError\<close> for \<open>s.section\<close> on \<open>null\<close> or \<open>undefined\<close>\<close>
  "cannot_read what =
     ''Cannot read properties of '' @ what @ '' (reading '' @ [squote] @ ''section'' @ [squote] @ '')''"

fun addDirect :: "jsval \<Rightarrow> jsval list \<Rightarrow> jsval list result" where
  \<comment> \<open>the callback of \<open>data.ipc_sections.forEach\<close>: a string is added as it is, and so is
      the \<open>section\<close> property of any other element when it is truthy, whatever its type.
      The values added are truthy or strings, on which the equality of a \<open>Set\<close> is the
      equality of \<^typ>\<open>jsval\<close>\<close>
  "addDirect (JStr s) secs = Inr (set_add (JStr s) secs)"
| "addDirect JUndefined secs = Inl (cannot_read ''undefined'')"
| "addDirect JNull secs = Inl (cannot_read ''null'')"
| "addDirect (JObj i ps) secs =
     Inr (if truthy (get_property ps ''section'') then set_add (get_property ps ''section'') secs
          else secs)"
| "addDirect (JBool b) secs = Inr secs"
| "addDirect (JNum n) secs = Inr secs"

function scanPattern :: "rx \<Rightarrow> string \<Rightarrow> jsval list \<Rightarrow> jsval list" where
  \<comment> \<open>\<open>while ((match = pattern.exec(text)) && sections.size < 20) sections.add(match[1])\<close>;
      a match that reads no character would repeat for ever and ends the scan here\<close>
  "scanPattern p s secs =
     (case rexec p s of
        None \<Rightarrow> secs
      | Some (g, rest) \<Rightarrow>
          if length secs < 20 \<and> length rest < length s
          then scanPattern p rest (set_add (JStr g) secs) else secs)"
  by pat_completeness auto
termination
  by (relation "measure (\<lambda>(p, s, secs). length s)") auto

declare scanPattern.simps [simp del]

definition extractIPCSections :: "kanoon_data \<Rightarrow> jsval list result" where
  "extractIPCSections data =
     (case (case ipc_sections data of None \<Rightarrow> Inr [] | Some es \<Rightarrow> forEach addDirect es []) of
        Inl m \<Rightarrow> Inl m
      | Inr direct \<Rightarrow>
          (let textToSearch = join '' '' [opt_str (kd_title data), opt_str (kd_judgment data),
                                         opt_str (kd_facts data), opt_str (kd_summary data)]
           in Inr (take 15 (fold (\<lambda>p secs. scanPattern p textToSearch secs) ipcPatterns direct))))"

definition falsy_year :: "int option \<Rightarrow> bool" where
  "falsy_year y = (y = None \<or> y = Some 0)"

definition fresh_id :: "store \<Rightarrow> nat" where
  "fresh_id st = foldr (\<lambda>d n. max (Suc (doc_id d)) n) st 0"

definition new_doc :: "nat \<Rightarrow> case_data \<Rightarrow> precedent" where
  \<comment> \<open>the document that \<open>new CasePrecedent(caseData)\<close> makes and \<open>save()\<close> stores: the paths
      the schema declares, and the schema's default for \<open>embedding\<close>\<close>
  "new_doc i cd =
     \<lparr>kanoonUrl = None, sourceId = None, title = title cd,
      caseNumber = caseNumber cd, year = year cd, court = court cd,
      ipcSections = ipcSections cd, cd_keywords = cd_keywords cd, facts = facts cd,
      decision = decision cd, summary = summary cd, doc_id = i, embedding = Null\<rparr>"

definition findOne :: "case_data \<Rightarrow> store \<Rightarrow> precedent option" where
  \<comment> \<open>\<open>CasePrecedent.findOne({ $or: [{ sourceId }, { kanoonUrl }] })\<close>: the first document
      with one of the two values; a value that the payload lacks matches a document that
      lacks the field\<close>
  "findOne cd st = find (\<lambda>d. sourceId d = sourceId cd \<or> kanoonUrl d = kanoonUrl cd) st"

definition withYear :: "env \<Rightarrow> case_data \<Rightarrow> case_data" where
  \<comment> \<open>\<open>{ ...caseData, year: caseData.year || new Date().getFullYear() }\<close>\<close>
  "withYear e cd = cd\<lparr>year := (if falsy_year (year cd) then Some (current_year e) else year cd)\<rparr>"

definition saveCaseToDatabase :: "env \<Rightarrow> store \<Rightarrow> case_data \<Rightarrow> (store \<times> precedent) result" where
  "saveCaseToDatabase e st cd =
     (case findOne cd st of
        Some existingCase \<Rightarrow> Inr (st, existingCase)
      | None \<Rightarrow>
          (let newCase = withYear e cd
           in case db_save_error e st newCase of
                Some m \<Rightarrow> Inl m
              | None \<Rightarrow> (let savedCase = new_doc (fresh_id st) newCase
                         in Inr (st @ [savedCase], savedCase))))"

record stats =
  searchedQueries :: nat
  casesFound :: nat
  casesFetched :: nat
  casesIndexed :: nat
  errors :: nat

datatype failure =
    QueryFailure string string \<comment> \<open>query, error\<close>
  | DocFailure string "string option" string string \<comment> \<open>query, docid, title, error\<close>

record sync =
  db :: store
  indexedCases :: "precedent list"
  failedCases :: "failure list"
  st :: stats

record report =
  r_success :: bool
  r_stats :: stats
  r_indexed :: nat
  r_failed :: nat
  r_cases :: "precedent list"
  r_errors :: "failure list"

definition recordFailure :: "failure \<Rightarrow> sync \<Rightarrow> sync" where
  \<comment> \<open>\<open>failedCases.push(...); stats.errors++\<close>\<close>
  "recordFailure f s =
     s\<lparr>failedCases := failedCases s @ [f], st := (st s)\<lparr>errors := errors (st s) + 1\<rparr>\<rparr>"

definition processDoc :: "env \<Rightarrow> string \<Rightarrow> search_doc \<Rightarrow> sync \<Rightarrow> sync" where
  \<comment> \<open>the body of the inner loop, with its \<open>try\<close>/\<open>catch\<close>\<close>
  "processDoc e query doc s =
     (case fetchCaseDetails e (tid doc) True of
        Inl m \<Rightarrow> recordFailure (DocFailure query (tid doc) (sd_title doc) m) s
      | Inr caseData \<Rightarrow>
          (let s1 = s\<lparr>st := (st s)\<lparr>casesFetched := casesFetched (st s) + 1\<rparr>\<rparr>
           in case saveCaseToDatabase e (db s1) caseData of
                Inl m \<Rightarrow> recordFailure (DocFailure query (tid doc) (sd_title doc) m) s1
              | Inr (db', savedCase) \<Rightarrow>
                  s1\<lparr>db := db', indexedCases := indexedCases s1 @ [savedCase],
                     st := (st s1)\<lparr>casesIndexed := casesIndexed (st s1) + 1\<rparr>\<rparr>))"

definition processQuery :: "env \<Rightarrow> nat \<Rightarrow> string \<Rightarrow> sync \<Rightarrow> sync" where
  \<comment> \<open>the body of the outer loop, with its \<open>try\<close>/\<open>catch\<close>\<close>
  "processQuery e limit query s =
     (let s1 = s\<lparr>st := (st s)\<lparr>searchedQueries := searchedQueries (st s) + 1\<rparr>\<rparr>
      in case searchCases e query of
           Inl m \<Rightarrow> recordFailure (QueryFailure query m) s1
         | Inr docs \<Rightarrow>
             if docs = [] then s1
             else fold (processDoc e query) (take limit docs)
                    (s1\<lparr>st := (st s1)\<lparr>casesFound := casesFound (st s1) + length docs\<rparr>\<rparr>))"

definition sync_init :: "store \<Rightarrow> sync" where
  \<comment> \<open>the empty lists and zero counters the function starts with\<close>
  "sync_init store0 =
     \<lparr>db = store0, indexedCases = [], failedCases = [],
      st = \<lparr>searchedQueries = 0, casesFound = 0, casesFetched = 0,
            casesIndexed = 0, errors = 0\<rparr>\<rparr>"

definition fetchAndIndexCases :: "env \<Rightarrow> store \<Rightarrow> string list \<Rightarrow> nat \<Rightarrow> store \<times> report" where
  "fetchAndIndexCases e store0 queries limit =
     (let s = fold (processQuery e limit) queries (sync_init store0)
      in (db s,
          \<lparr>r_success = (length (indexedCases s) > 0), r_stats = st s,
           r_indexed = length (indexedCases s), r_failed = length (failedCases s),
           r_cases = indexedCases s, r_errors = failedCases s\<rparr>))"

section \<open>RAG service\<close>

definition callGrokLLM :: "env \<Rightarrow> string \<Rightarrow> string \<Rightarrow> string option result" where
  \<comment> \<open>the completion's \<open>content\<close> may be \<open>null\<close>\<close>
  "callGrokLLM e prompt systemPrompt =
     (if \<not> xai_key_set e then Inl ''XAI_API_KEY is not set. RAG features are disabled.''
      else chat_api e prompt systemPrompt)"

definition LEGAL_SYSTEM_PROMPT :: string where
  "LEGAL_SYSTEM_PROMPT = concat
    [''You are an expert Indian legal advisor specializing in IPC, CrPC, and case law.'',
     [newline], ''Your task is to analyze legal cases and provide:'', [newline],
     ''1. Accurate IPC/Section identification.'', [newline],
     ''2. key legal arguments used in similar precedents.'', [newline],
     ''3. Strategic advice for the lawyer/client.'', [newline], [newline],
     ''Always cite relevant case law. Be precise, factual, and professional.'']"

definition classifyPrompt :: "string \<Rightarrow> string" where
  "classifyPrompt description = concat
    [''Analyze the following case description and classify it into exactly ONE of these categories: '',
     [newline],
     ''    [Criminal, Civil, Corporate, Family, Property, Intellectual Property, Labour, Constitutional, Consumer, Cyber Law].'',
     [newline], ''    '', [newline], ''    Case Description: '', [dquote], description,
     [dquote], [newline], ''    '', [newline],
     ''    Return ONLY the category name. Do not explain.'']"

definition classifierSystemPrompt :: string where
  "classifierSystemPrompt = ''You are a legal classifier. Output only the category name.''"

definition classifyCaseType :: "env \<Rightarrow> string \<Rightarrow> string" where
  \<comment> \<open>\<open>category.trim()\<close> on \<open>null\<close> throws inside the \<open>try\<close>\<close>
  "classifyCaseType e description =
     (case callGrokLLM e (classifyPrompt description) classifierSystemPrompt of
        Inl m \<Rightarrow> ''General''
      | Inr None \<Rightarrow> ''General''
      | Inr (Some category) \<Rightarrow>
          filter (\<lambda>c. c \<noteq> squote \<and> c \<noteq> dquote \<and> c \<noteq> CHR ''.'') (trim category))"

definition queriesPrompt :: "string \<Rightarrow> string" where
  "queriesPrompt description = concat
    [''Generate 2 specific search queries for the Indian Kanoon legal database based on this case description.'',
     [newline], ''    Focus on key legal terms, IPC sections, and relevant acts.'', [newline],
     ''    '', [newline], ''    Case Description: '', [dquote], description, [dquote],
     [newline], ''    '', [newline],
     ''    Return ONLY the 2 queries separated by a pipe character (|). Example: '', [dquote],
     ''Section 302 IPC murder precedent | culpable homicide not amounting to murder'', [dquote]]"

definition generateSearchQueries :: "env \<Rightarrow> string \<Rightarrow> string list" where
  "generateSearchQueries e description =
     (case callGrokLLM e (queriesPrompt description) ''You are a legal search expert.'' of
        Inl m \<Rightarrow> [take 100 description]
      | Inr None \<Rightarrow> [take 100 description]
      | Inr (Some response) \<Rightarrow>
          take 2 (filter (\<lambda>q. length q > 5) (map trim (split CHR ''|'' response))))"

definition findBestLawyers :: "env \<Rightarrow> string \<Rightarrow> lawyer list" where
  \<comment> \<open>the two queries on the lawyer collection are the environment's; a failure gives \<open>[]\<close>\<close>
  "findBestLawyers e caseType = (case lawyer_query e caseType of Inl m \<Rightarrow> [] | Inr ls \<Rightarrow> ls)"

definition contextEntry :: "nat \<times> retrieved_case \<Rightarrow> string" where
  \<comment> \<open>a retrieved case has no \<open>summary\<close> and no \<open>decision\<close> property\<close>
  "contextEntry p = (case p of (idx, case_) \<Rightarrow> concat
     [[newline], show_nat (idx + 1), ''. Case: '', js_or (rc_caseNumber case_) (rc_title case_), [newline],
      ''   Title: '', rc_title case_, [newline],
      ''   Source: '', js_or (opt_str (source case_)) ''Local Database'', [newline],
      ''   Summary: '', js_or (content case_) ''undefined'', [newline],
      ''   Verdict: '', js_or (opt_str (verdict case_)) ''Not specified'', [newline]])"

definition createAugmentedPrompt :: "string \<Rightarrow> string \<Rightarrow> retrieved_case list \<Rightarrow> string" where
  "createAugmentedPrompt caseDescription caseType retrievedCases =
     (let contextSection =
            (if retrievedCases \<noteq> []
             then concat [[newline], [newline],
                    ''SIMILAR PRECEDENT CASES (Analyze these for arguments):'', [newline]]
                  @ concat (map contextEntry (enumerate 0 retrievedCases))
             else [])
      in concat
    [''CASE TYPE: '', caseType, [newline], [newline], ''USER'', [squote], ''S CASE DETAILS:'',
     [newline], caseDescription, [newline], contextSection, [newline], [newline],
     ''REQUIRED STRUCTURAL ANALYSIS:'', [newline],
     ''1. **Applicable IPC Sections**: List specific sections with brief reasoning.'',
     [newline],
     ''2. **Key Legal Arguments**: Extract potential arguments for both prosecution/plaintiff and defense based on the precedents.'',
     [newline], ''3. **Strategic Roadmap**: Recommended legal steps.'', [newline],
     ''4. **Risk Assessment**: (High/Medium/Low) with justification.'', [newline],
     ''5. **Verdict Prediction**: Based on precedents.'', [newline], [newline],
     ''Provide a comprehensive legal analysis.''])"

record analysis =
  suggestedIPCs :: "string list"
  a_summary :: "string option"
  a_analysis :: "string option"
  keyArguments :: string
  possibleVerdict :: string
  riskLevel :: string
  recommendations :: string
  confidence :: real
  analyzedAt :: nat

definition ipcPattern :: rx where
  \<comment> \<open>\<open>/(?:IPC\s+)?(?:Section|Sec\.?)\s+(\d+[A-Z]?)/gi\<close>\<close>
  "ipcPattern =
     seqs [Opt (Seq (str ''IPC'') (Plus Space)),
           Alt (str ''Section'') (Seq (str ''Sec'') (Opt (C (Lit CHR ''.'')))),
           Plus Space, sectionNo]"

definition blockPattern :: "rx \<Rightarrow> rx" where
  \<comment> \<open>\<open>/(?:label)[:\s]+([\s\S]*?)(?=\n\n|\n[A-Z]|$)/i\<close>\<close>
  "blockPattern label =
     seqs [label, Plus (Union (Lit CHR '':'') Space), Grp (LazyStar AnyChar),
           Ahead (Alt (str [newline, newline]) (Alt (Seq (C (Lit newline)) (C Letter)) End))]"

definition verdictPattern :: rx where
  "verdictPattern = blockPattern (Alt (str ''Verdict'') (str ''Outcome''))"

definition riskPattern :: rx where
  \<comment> \<open>\<open>/Risk\s+Assessment[:\s]+(\w+)(?:\s*\/\s*\w+)?/i\<close>\<close>
  "riskPattern =
     seqs [str ''Risk'', Plus Space, str ''Assessment'', Plus (Union (Lit CHR '':'') Space),
           Grp (Plus Word), Opt (seqs [Star Space, C (Lit CHR ''/''), Star Space, Plus Word])]"

definition argsPattern :: rx where
  "argsPattern = blockPattern
     (Alt (seqs [str ''Key'', Plus Space, str ''Legal'', Plus Space, str ''Arguments''])
          (str ''Arguments''))"

definition recPattern :: rx where
  "recPattern = blockPattern
     (Alt (seqs [str ''Strategic'', Plus Space, str ''Roadmap''])
          (Alt (seqs [str ''Recommended'', Plus Space, str ''Steps'']) (str ''Actions'')))"

function execAll :: "rx \<Rightarrow> string \<Rightarrow> string list" where
  \<comment> \<open>\<open>while ((match = pattern.exec(text)) !== null) push(match[1])\<close>;
      a match that reads no character would repeat for ever and ends the loop here\<close>
  "execAll p s =
     (case rexec p s of
        None \<Rightarrow> []
      | Some (g, rest) \<Rightarrow> if length rest < length s then g # execAll p rest else [g])"
  by pat_completeness auto
termination
  by (relation "measure (\<lambda>(p, s). length s)") auto

declare execAll.simps [simp del]

definition firstLine :: "string \<Rightarrow> string" where
  \<comment> \<open>\<open>s.split('\n')[0]\<close>\<close>
  "firstLine s = takeWhile (\<lambda>c. c \<noteq> newline) s"

definition matchGroup :: "rx \<Rightarrow> string \<Rightarrow> string option" where
  \<comment> \<open>\<open>text.match(pattern)\<close> without the \<open>g\<close> flag, reduced to group 1\<close>
  "matchGroup p s = map_option fst (rexec p s)"

definition sectionLabel :: "string \<Rightarrow> string" where
  \<comment> \<open>the template \<open>IPC Section ${match[1]}\<close>\<close>
  "sectionLabel g = ''IPC Section '' @ g"

definition parseAnalysisResponse :: "nat \<Rightarrow> string option \<Rightarrow> analysis" where
  \<comment> \<open>a \<open>null\<close> response makes \<open>response.match\<close> throw: the \<open>catch\<close> branch\<close>
  "parseAnalysisResponse now response =
     (case response of
        None \<Rightarrow>
          \<lparr>suggestedIPCs = [], a_summary = None, a_analysis = None, keyArguments = [],
           possibleVerdict = ''Analysis required'', riskLevel = ''Medium'',
           recommendations = [], confidence = 0.5, analyzedAt = now\<rparr>
      | Some r \<Rightarrow>
          (let ipcMatches = map sectionLabel (execAll ipcPattern r);
               suggested = fold set_add ipcMatches []
           in \<lparr>suggestedIPCs = (if length suggested > 0 then suggested else [''Analysis required'']),
               a_summary = Some (take 500 r),
               a_analysis = Some r,
               keyArguments =
                 (case matchGroup argsPattern r of
                    Some g \<Rightarrow> trim g | None \<Rightarrow> ''Refer to detailed analysis.''),
               possibleVerdict =
                 (case matchGroup verdictPattern r of
                    Some g \<Rightarrow> firstLine (trim g) | None \<Rightarrow> ''Analysis required''),
               riskLevel = (case matchGroup riskPattern r of Some g \<Rightarrow> g | None \<Rightarrow> ''Medium''),
               recommendations = (case matchGroup recPattern r of Some g \<Rightarrow> trim g | None \<Rightarrow> []),
               confidence = (if length suggested > 0 then 0.90 else 0.60),
               analyzedAt = now\<rparr>))"

record retrieved_summary =
  rs_caseId :: case_ref
  rs_caseNumber :: string
  rs_title :: string
  rs_similarity :: double
  rs_verdict :: "string option"
  rs_source :: string

record rag_result =
  success :: bool
  rr_caseType :: string
  rr_analysis :: analysis
  retrievedCases :: "retrieved_summary list"
  recommendedLawyers :: "lawyer list"
  fullResponse :: "string option"

definition resolveCaseType :: "env \<Rightarrow> string \<Rightarrow> string option \<Rightarrow> string" where
  \<comment> \<open>step 0: \<open>if (!finalCaseType || finalCaseType === 'General')\<close>\<close>
  "resolveCaseType e caseDescription caseType =
     (case caseType of
        None \<Rightarrow> classifyCaseType e caseDescription
      | Some t \<Rightarrow> if t = [] \<or> t = ''General'' then classifyCaseType e caseDescription else t)"

definition localRetrieval :: "env \<Rightarrow> store \<Rightarrow> string \<Rightarrow> retrieved_case list" where
  \<comment> \<open>step 1: a failed vector search is logged and leaves the list empty\<close>
  "localRetrieval e db0 searchQuery =
     (case searchSimilarCases e db0 searchQuery 3 of
        Inl m \<Rightarrow> []
      | Inr localResults \<Rightarrow> map (\<lambda>r. r\<lparr>source := Some ''Local DB''\<rparr>) localResults)"

definition liveDoc :: "search_doc \<Rightarrow> retrieved_case option" where
  \<comment> \<open>\<open>doc.tid.toString()\<close> throws when \<open>tid\<close> is undefined\<close>
  "liveDoc doc =
     (case tid doc of
        None \<Rightarrow> None
      | Some t \<Rightarrow>
          Some \<lparr>caseId = KanoonId t, rc_caseNumber = t, rc_title = sd_title doc,
                similarity = literal (9 / 10), content = js_or (headline doc) (sd_title doc),
                source = Some ''Live Indian Kanoon'', verdict = Some ''Refer to full judgment''\<rparr>)"

definition enrichFirst :: "env \<Rightarrow> search_doc list \<Rightarrow> retrieved_case list \<Rightarrow> retrieved_case list" where
  "enrichFirst e docs topLiveDocs =
     (case (docs, topLiveDocs) of
        (doc # _, first # others) \<Rightarrow>
          (case fetchCaseDetails e (tid doc) False of
             Inl m \<Rightarrow> first # others
           | Inr fullDetails \<Rightarrow>
               first\<lparr>content := js_or (summary fullDetails) (take 1000 (decision fullDetails)),
                     verdict := Some (take 200 (decision fullDetails) @ ''...'')\<rparr> # others)
      | _ \<Rightarrow> topLiveDocs)"

definition liveRetrieval :: "env \<Rightarrow> string \<Rightarrow> retrieved_case list" where
  \<comment> \<open>step 2: any failure is logged and the step adds nothing\<close>
  "liveRetrieval e caseDescription =
     (case generateSearchQueries e caseDescription of
        [] \<Rightarrow> []
      | q # _ \<Rightarrow>
          (case searchCases e q of
             Inl m \<Rightarrow> []
           | Inr docs \<Rightarrow>
               if docs = [] then []
               else (case those (map liveDoc (take 2 docs)) of
                       None \<Rightarrow> []
                     | Some topLiveDocs \<Rightarrow> enrichFirst e (take 2 docs) topLiveDocs)))"

definition summarize :: "retrieved_case \<Rightarrow> retrieved_summary" where
  "summarize rc =
     \<lparr>rs_caseId = caseId rc, rs_caseNumber = rc_caseNumber rc, rs_title = rc_title rc,
      rs_similarity = similarity rc, rs_verdict = verdict rc,
      rs_source = js_or (opt_str (source rc)) ''Local DB''\<rparr>"

definition analyzeWithRAG :: "env \<Rightarrow> store \<Rightarrow> string \<Rightarrow> string option \<Rightarrow> rag_result result" where
  "analyzeWithRAG e db0 caseDescription caseType =
     (let finalCaseType = resolveCaseType e caseDescription caseType;
          searchQuery = finalCaseType @ '' case: '' @ caseDescription;
          retrieved = localRetrieval e db0 searchQuery @ liveRetrieval e caseDescription;
          augmentedPrompt = createAugmentedPrompt caseDescription finalCaseType retrieved
      in case callGrokLLM e augmentedPrompt LEGAL_SYSTEM_PROMPT of
           Inl m \<Rightarrow> Inl m
         | Inr responseText \<Rightarrow>
             Inr \<lparr>success = True, rr_caseType = finalCaseType,
                  rr_analysis = parseAnalysisResponse (clock e) responseText,
                  retrievedCases = map summarize retrieved,
                  recommendedLawyers = findBestLawyers e finalCaseType,
                  fullResponse = responseText\<rparr>)"

section \<open>Notions used in the statements\<close>

definition attempted :: "env \<Rightarrow> nat \<Rightarrow> string \<Rightarrow> nat" where
  \<comment> \<open>the items a query contributes to a batch: the query itself when its search throws,
      otherwise its documents within the limit\<close>
  "attempted e limit query =
     (case searchCases e query of Inl m \<Rightarrow> 1 | Inr docs \<Rightarrow> length (take limit docs))"

definition reembed :: "env \<Rightarrow> precedent \<Rightarrow> precedent" where
  \<comment> \<open>a document after a bulk run: embedded when it had no embedding field and its own
      embedding call succeeds, unchanged otherwise\<close>
  "reembed e d =
     (if embedding d = Missing
      then (case createEmbedding e (caseText d) of Inl m \<Rightarrow> d | Inr v \<Rightarrow> d\<lparr>embedding := Vec v\<rparr>)
      else d)"

definition analysisPrompt :: "env \<Rightarrow> store \<Rightarrow> string \<Rightarrow> string option \<Rightarrow> string" where
  \<comment> \<open>the prompt \<open>analyzeWithRAG\<close> sends in its main analysis call (steps 0 to 3)\<close>
  "analysisPrompt e db0 caseDescription caseType =
     (let finalCaseType = resolveCaseType e caseDescription caseType;
          searchQuery = finalCaseType @ '' case: '' @ caseDescription
      in createAugmentedPrompt caseDescription finalCaseType
           (localRetrieval e db0 searchQuery @ liveRetrieval e caseDescription))"

definition outcomes :: "sync \<Rightarrow> nat" where
  "outcomes s = length (indexedCases s) + length (failedCases s)"

definition consistent :: "sync \<Rightarrow> bool" where
  "consistent s = (casesIndexed (st s) = length (indexedCases s) \<and> errors (st s) = length (failedCases s))"


definition has_vector :: "precedent \<Rightarrow> bool" where
  \<comment> \<open>the precedent carries a non-null embedding\<close>
  "has_vector d = (case embedding d of Vec v \<Rightarrow> True | _ \<Rightarrow> False)"

definition on_grid :: "double \<Rightarrow> bool" where
  \<comment> \<open>a finite value is a multiple of \<open>2 ^ - 1074\<close>, as every double is\<close>
  "on_grid d = (case d of Fin x \<Rightarrow> of_int \<lfloor>x * 2 ^ 1074\<rfloor> = x * 2 ^ 1074 | _ \<Rightarrow> True)"

definition section_text :: "jsval \<Rightarrow> string option" where
  \<comment> \<open>the section a returned value names, \<open>String(v)\<close>: a string is its own text and an
      integral number below \<open>10 ^ 21\<close> is written with its decimal digits (other values are
      not needed)\<close>
  "section_text v =
     (case v of
        JStr s \<Rightarrow> Some s
      | JNum (Fin x) \<Rightarrow> if of_int \<lfloor>x\<rfloor> = x \<and> \<bar>x\<bar> < 10 ^ 21 then Some (show_int \<lfloor>x\<rfloor>) else None
      | _ \<Rightarrow> None)"

section \<open>Example inputs\<close>

definition payload1 :: case_data where
  "payload1 =
     \<lparr>kanoonUrl = Some ''https://indiankanoon.org/doc/1/'', sourceId = Some ''1'',
      title = ''State v. A'', caseNumber = ''CRL 1/2020'', year = Some 2020,
      court = ''Supreme Court'', ipcSections = [''302''], cd_keywords = [''murder''],
      facts = [], decision = ''Appeal dismissed'', summary = ''Murder appeal''\<rparr>"

definition env_up :: env where
  "env_up =
     \<lparr>xai_key_set = True, embeddings_api = (\<lambda>t. Inr [Fin 1]),
      chat_api = (\<lambda>p s. Inl ''timeout of 60000ms exceeded''),
      searchCases = (\<lambda>q. Inr []), fetchCaseDetails = (\<lambda>i c. Inl ''Request failed with status code 500''),
      db_save_error = (\<lambda>st d. None), lawyer_query = (\<lambda>t. Inr []),
      current_year = 2026, clock = 0\<rparr>"

definition env_down :: env where
  "env_down = env_up\<lparr>xai_key_set := False\<rparr>"

definition raw_doc :: "nat \<Rightarrow> case_data \<Rightarrow> precedent" where
  \<comment> \<open>a document written to the collection without the model, with every field of the
      payload and no \<open>embedding\<close> field\<close>
  "raw_doc i cd =
     (new_doc i cd)\<lparr>kanoonUrl := kanoonUrl cd, sourceId := sourceId cd, embedding := Missing\<rparr>"



definition store_indexed :: store where
  "store_indexed = [(new_doc 0 payload1)\<lparr>embedding := Vec [Fin 1]\<rparr>]"

definition store_cleared :: store where
  "store_cleared = deleteIndex store_indexed 0"

definition match_cleared :: retrieved_case where
  "match_cleared =
     \<lparr>caseId = LocalId 0, rc_caseNumber = ''CRL 1/2020'', rc_title = ''State v. A'',
      similarity = Fin 0, content = ''Murder appeal'', source = None, verdict = None\<rparr>"

definition sample_judgment :: kanoon_data where
  "sample_judgment =
     \<lparr>ipc_sections = None,
      kd_title = Some ''State v. A'',
      kd_judgment = Some ''The accused was convicted under Section 302 IPC and S. 34 IPC by the trial court.'',
      kd_facts = None, kd_summary = None\<rparr>"

definition listed_judgment :: kanoon_data where
  \<comment> \<open>the same judgment with the structured list \<open>[{ section: 302 }]\<close>\<close>
  "listed_judgment =
     sample_judgment\<lparr>ipc_sections := Some [JObj 0 [(''section'', JNum (Fin 302))]]\<rparr>"

definition payload1b :: case_data where
  \<comment> \<open>the same Kanoon document as \<open>payload1\<close>, fetched again with other contents\<close>
  "payload1b = payload1\<lparr>title := ''State v. A (reported)'', caseNumber := ''CRL 9/2021'',
                        year := Some 2021, summary := ''Murder appeal, second report''\<rparr>"

definition payload_same_url :: case_data where
  "payload_same_url = payload1\<lparr>sourceId := Some ''77'', title := ''Mirror copy''\<rparr>"

definition payload2 :: case_data where
  "payload2 =
     \<lparr>kanoonUrl = Some ''https://indiankanoon.org/doc/2/'', sourceId = Some ''2'',
      title = ''B v. Union'', caseNumber = ''WP 7/2019'', year = None,
      court = ''Delhi High Court'', ipcSections = [], cd_keywords = [],
      facts = [], decision = [], summary = ''Writ petition''\<rparr>"

definition hitA :: search_doc where
  "hitA = \<lparr>tid = Some ''1'', sd_title = ''State v. A'', headline = ''murder appeal''\<rparr>"

definition hitB :: search_doc where
  "hitB = \<lparr>tid = Some ''404'', sd_title = ''Withdrawn'', headline = []\<rparr>"

definition hitC :: search_doc where
  "hitC = \<lparr>tid = Some ''2'', sd_title = ''B v. Union'', headline = ''writ petition''\<rparr>"

definition env_sync :: env where
  "env_sync = env_up
     \<lparr>searchCases := (\<lambda>q. if q = ''Section 302 IPC'' then Inr [hitA, hitB]
                          else if q = ''dowry'' then Inl ''Failed to search Kanoon API: timeout of 30000ms exceeded''
                          else Inr [hitC]),
      fetchCaseDetails := (\<lambda>i c. if i = Some ''1'' then Inr payload1b
                                 else if i = Some ''2'' then Inr payload2
                                 else Inl ''Kanoon API: Document not found: 404'')\<rparr>"

definition sync_queries :: "string list" where
  "sync_queries = [''Section 302 IPC'', ''dowry'', ''cybercrime'']"

definition store_one :: store where
  "store_one = [raw_doc 0 payload1]"

definition store_two :: store where
  "store_two = [raw_doc 0 payload1, raw_doc 1 payload2]"

definition env_flaky :: env where
  \<comment> \<open>the embedding endpoint rejects the text of the first document only\<close>
  "env_flaky = env_up
     \<lparr>embeddings_api := (\<lambda>t. if t = caseText (raw_doc 0 payload1)
                              then Inl ''Request failed with status code 429''
                              else Inr [Fin 1, Fin 0])\<rparr>"

definition reply_no_section :: string where
  "reply_no_section = concat [''Verdict: Guilty'', [newline, newline], ''Risk Assessment: High'']"

definition reply_section :: string where
  "reply_section = ''Applicable: IPC Section 405 (criminal breach of trust).''"

definition reply_plain :: string where
  "reply_plain = ''No statute is named in this answer.''"

definition partner_case :: string where
  "partner_case =
     ''My business partner secretly started a competing company and stole our client database.''"

definition env_rag :: env where
  \<comment> \<open>the chat endpoint answers the analysis call only\<close>
  "env_rag = env_up
     \<lparr>chat_api := (\<lambda>p sp. if sp = LEGAL_SYSTEM_PROMPT then Inr (Some reply_section)
                           else Inl ''timeout of 60000ms exceeded'')\<rparr>"

section \<open>Arithmetic on concrete numbers\<close>

lemmas rounding = to_double_def nearest_def quantum_def expo.simps pow2_def round_even_def
  negative_def is_zero_def is_inf_def val_def signed_zero_def signed_inf_def

lemma expo_pow2: "expo (2 ^ n) = int n"
proof (induction n)
  case 0
  show ?case by (simp add: expo.simps)
next
  case (Suc n)
  have "(2::real) \<le> \<bar>2 ^ Suc n\<bar>" by simp
  then have "expo (2 ^ Suc n) = expo (2 ^ Suc n / 2) + 1"
    by (subst expo.simps) simp
  with Suc show ?case by simp
qed

lemma nearest_pow2:
  assumes "52 \<le> n"
  shows "nearest (2 ^ n) = 2 ^ n"
proof -
  have q: "quantum (2 ^ n) = 2 ^ (n - 52)"
    using assms by (simp add: quantum_def expo_pow2 pow2_def nat_diff_distrib')
  have "(2::real) ^ (52 + (n - 52)) = 2 ^ 52 * 2 ^ (n - 52)"
    by (rule power_add)
  moreover have "52 + (n - 52) = n"
    using assms by simp
  ultimately have split: "(2::real) ^ n = 2 ^ 52 * 2 ^ (n - 52)"
    by simp
  have d: "(2::real) ^ n / 2 ^ (n - 52) = 2 ^ 52"
    unfolding split by simp
  have r: "real_of_int (round_even (2 ^ 52)) = 2 ^ 52"
    by (simp add: round_even_def)
  show ?thesis
    unfolding nearest_def q d r by (rule split [symmetric])
qed

lemma square_overflows: "fmul (Fin (2 ^ 512)) (Fin (2 ^ 512)) = PInf"
proof -
  have p: "(2::real) ^ 512 * 2 ^ 512 = 2 ^ 1024"
    by (simp flip: power_add)
  have n: "nearest (2 ^ 1024) = 2 ^ 1024"
    by (rule nearest_pow2) simp
  have "to_double False (2 ^ 1024) = PInf"
    unfolding to_double_def Let_def n by (simp add: signed_inf_def)
  then show ?thesis
    unfolding fmul_def val_def negative_def is_inf_def by (simp add: p del: power_numeral)
qed

lemma sqrt3_bounds:
  "1 \<le> sqrt 3" "sqrt 3 < 2"
  "7800463371553962 / 2 ^ 52 \<le> sqrt 3" "sqrt 3 < (7800463371553962 + 1 / 2) / 2 ^ 52"
proof -
  show "1 \<le> sqrt 3" by simp
  show "sqrt 3 < 2" by (rule real_less_lsqrt) simp_all
  show "7800463371553962 / 2 ^ 52 \<le> sqrt 3"
    by (rule real_le_rsqrt) (simp add: power2_eq_square)
  show "sqrt 3 < (7800463371553962 + 1 / 2) / 2 ^ 52"
    by (rule real_less_lsqrt) (simp_all add: power2_eq_square)
qed

lemma fsqrt_3: "fsqrt (Fin 3) = Fin (7800463371553962 / 2 ^ 52)"
proof -
  define r where "r = sqrt 3 * 2 ^ 52"
  have e: "expo (sqrt 3) = 0"
    using sqrt3_bounds(1,2) by (subst expo.simps) simp
  have lo: "7800463371553962 \<le> r" and hi: "r < 7800463371553962 + 1 / 2"
    using sqrt3_bounds(3,4) by (simp_all add: r_def field_simps)
  have fl: "\<lfloor>r\<rfloor> = 7800463371553962"
    using lo hi by (intro floor_unique) simp_all
  have re: "round_even r = 7800463371553962"
    unfolding round_even_def Let_def fl using hi by simp
  have q: "quantum (sqrt 3) = 1 / 2 ^ 52"
    by (simp add: quantum_def e pow2_def)
  have dv: "sqrt 3 / (1 / 2 ^ 52) = r"
    by (simp add: r_def)
  have "nearest (sqrt 3) = 7800463371553962 / 2 ^ 52"
    unfolding nearest_def q dv re by simp
  then show ?thesis
    by (simp add: fsqrt_def to_double_def signed_zero_def signed_inf_def)
qed

lemma small_sums:
  "fmul (Fin 1) (Fin 1) = Fin 1" "fadd (Fin 0) (Fin 1) = Fin 1"
  "fadd (Fin 1) (Fin 1) = Fin 2" "fadd (Fin 2) (Fin 1) = Fin 3"
  by (simp_all add: fmul_def fadd_def rounding)

lemma cosine_ones:
  "cosineSimilarity (Some [Fin 1, Fin 1, Fin 1]) (Some [Fin 1, Fin 1, Fin 1]) = Fin (1 + 1 / 2 ^ 52)"
proof -
  have d: "dotProduct [Fin 1, Fin 1, Fin 1] [Fin 1, Fin 1, Fin 1] = Fin 3"
    by (simp add: dotProduct_def small_sums)
  have m: "magnitude [Fin 1, Fin 1, Fin 1] = Fin (3900231685776981 / 2251799813685248)"
    using fsqrt_3 by (simp add: magnitude_def small_sums)
  show ?thesis
    by (simp add: cosineSimilarity_def d m fmul_def fdiv_def rounding strict_eq_def Let_def)
qed

lemma cosine_overflow:
  "cosineSimilarity (Some [Fin (2 ^ 512)]) (Some [Fin (2 ^ 512)]) = NaN"
proof -
  have d: "dotProduct [Fin (2 ^ 512)] [Fin (2 ^ 512)] = PInf"
    unfolding dotProduct_def by (simp add: square_overflows fadd_def is_inf_def del: power_numeral)
  have m: "magnitude [Fin (2 ^ 512)] = PInf"
    unfolding magnitude_def
    by (simp add: square_overflows fadd_def fsqrt_def is_inf_def del: power_numeral)
  show ?thesis
    unfolding cosineSimilarity_def
    by (simp add: d m Let_def strict_eq_def fmul_def fdiv_def is_inf_def is_zero_def
        signed_inf_def negative_def del: power_numeral)
qed

section \<open>Cosine similarity\<close>

lemma fmul_commute: "fmul a b = fmul b a"
  by (cases "negative a"; cases "negative b") (auto simp: fmul_def mult.commute)

lemma dotProduct_commute: "dotProduct a b = dotProduct b a"
proof -
  have "foldl (\<lambda>s (x, y). fadd s (fmul x y)) s (zip a b)
          = foldl (\<lambda>s (x, y). fadd s (fmul x y)) s (zip b a)" for s
  proof (induction a arbitrary: b s)
    case Nil
    show ?case by simp
  next
    case (Cons x xs)
    show ?case
    proof (cases b)
      case Nil
      then show ?thesis by simp
    next
      case (Cons y ys)
      have "fmul x y = fmul y x" by (rule fmul_commute)
      then show ?thesis using Cons Cons.IH [of "fadd s (fmul y x)" ys] by simp
    qed
  qed
  then show ?thesis by (simp add: dotProduct_def)
qed

lemma cosine_commute: "cosineSimilarity a b = cosineSimilarity b a"
proof (cases a)
  case None
  then show ?thesis by (cases b) (simp_all add: cosineSimilarity_def)
next
  case (Some u)
  show ?thesis
  proof (cases b)
    case None
    then show ?thesis using Some by (simp add: cosineSimilarity_def)
  next
    case (Some v)
    have "fmul (magnitude u) (magnitude v) = fmul (magnitude v) (magnitude u)"
      by (rule fmul_commute)
    then show ?thesis using \<open>a = Some u\<close> Some dotProduct_commute [of u v]
      by (auto simp: cosineSimilarity_def Let_def)
  qed
qed

lemma to_double_zero: "to_double False 0 = Fin 0"
  by (simp add: to_double_def nearest_def round_even_def signed_zero_def)

lemma sum_squares_zero:
  "\<forall>x\<in>set v. is_zero x \<Longrightarrow> foldl (\<lambda>s x. fadd s (fmul x x)) (Fin 0) v = Fin 0"
proof (induction v)
  case Nil
  show ?case by simp
next
  case (Cons x xs)
  then have "is_zero x" by simp
  then have "fmul x x = Fin 0"
    by (auto simp: is_zero_def fmul_def is_inf_def negative_def val_def to_double_zero)
  moreover have "fadd (Fin 0) (Fin 0) = Fin 0"
    by (simp add: fadd_def is_inf_def negative_def val_def to_double_zero)
  ultimately show ?case using Cons by simp
qed

lemma magnitude_zero_vector: "\<forall>x\<in>set v. is_zero x \<Longrightarrow> magnitude v = Fin 0"
  by (simp add: magnitude_def sum_squares_zero fsqrt_def to_double_zero)

text \<open>
  \<^bold>\<open>C2\<close>, as stated: the result of \<open>cosineSimilarity\<close> always lies between \<open>-1\<close> and \<open>1\<close>. It
  fails by rounding: for the vector \<open>[1, 1, 1]\<close> and itself the magnitude is the double
  nearest to the square root of \<open>3\<close>, the product of the two magnitudes is rounded to the
  double below \<open>3\<close>, and the quotient is the double above \<open>1\<close>. It fails by overflow as well:
  where the squares exceed the largest double the result is NaN.
\<close>

theorem cosineSimilarity_exceeds_one:
  "cosineSimilarity (Some [Fin 1, Fin 1, Fin 1]) (Some [Fin 1, Fin 1, Fin 1]) = Fin (1 + 1 / 2 ^ 52)
   \<and> \<not> fle (cosineSimilarity (Some [Fin 1, Fin 1, Fin 1]) (Some [Fin 1, Fin 1, Fin 1])) (Fin 1)
   \<and> cosineSimilarity (Some [Fin (2 ^ 512)]) (Some [Fin (2 ^ 512)]) = NaN"
  by (simp add: cosine_ones cosine_overflow fle_def fless_def strict_eq_def val_def is_zero_def
      del: power_numeral)

text \<open>
  \<^bold>\<open>C2\<close>, amended: \<open>cosineSimilarity\<close> is symmetric (the two calls return the same
  value, NaN where it is NaN), and it returns exactly \<open>0\<close> when a vector is missing, when a
  vector is empty or all zero and when the two lengths differ. No interval confines its
  result.
\<close>

theorem cosineSimilarity_symmetric_zero:
  "cosineSimilarity a b = cosineSimilarity b a
   \<and> (a = None \<or> b = None \<longrightarrow> cosineSimilarity a b = Fin 0)
   \<and> (u = [] \<or> v = [] \<or> (\<forall>x\<in>set u. is_zero x) \<or> (\<forall>x\<in>set v. is_zero x)
        \<or> length u \<noteq> length v
      \<longrightarrow> cosineSimilarity (Some u) (Some v) = Fin 0)"
proof (intro conjI impI)
  show "cosineSimilarity a b = cosineSimilarity b a" by (rule cosine_commute)
next
  assume "a = None \<or> b = None"
  then show "cosineSimilarity a b = Fin 0"
    by (auto simp: cosineSimilarity_def split: option.splits)
next
  assume "u = [] \<or> v = [] \<or> (\<forall>x\<in>set u. is_zero x) \<or> (\<forall>x\<in>set v. is_zero x)
        \<or> length u \<noteq> length v"
  then have "(\<forall>x\<in>set u. is_zero x) \<or> (\<forall>x\<in>set v. is_zero x) \<or> length u \<noteq> length v"
    by auto
  then have "length u \<noteq> length v \<or> magnitude u = Fin 0 \<or> magnitude v = Fin 0"
    using magnitude_zero_vector [of u] magnitude_zero_vector [of v] by blast
  then show "cosineSimilarity (Some u) (Some v) = Fin 0"
    by (auto simp: cosineSimilarity_def Let_def strict_eq_def)
qed

theorem cosineSimilarity_symmetric_zero_witness:
  "cosineSimilarity (Some [Fin 3, Fin 4]) (Some [Fin 4, Fin 3])
     = cosineSimilarity (Some [Fin 4, Fin 3]) (Some [Fin 3, Fin 4])
   \<and> cosineSimilarity None (Some [Fin 3, Fin 4]) = Fin 0
   \<and> cosineSimilarity (Some [Fin 0, NegZero]) (Some [Fin 3, Fin 4]) = Fin 0
   \<and> cosineSimilarity (Some [Fin 1, Fin 2]) (Some [Fin 3, Fin 4, Fin 5]) = Fin 0
   \<and> cosineSimilarity (Some []) (Some []) = Fin 0"
proof -
  have "cosineSimilarity (Some [Fin 3, Fin 4]) (Some [Fin 4, Fin 3])
          = cosineSimilarity (Some [Fin 4, Fin 3]) (Some [Fin 3, Fin 4])"
    and "cosineSimilarity (Some [Fin 0, NegZero]) (Some [Fin 3, Fin 4]) = Fin 0"
    using cosineSimilarity_symmetric_zero
            [of "Some [Fin 3, Fin 4]" "Some [Fin 4, Fin 3]" "[Fin 0, NegZero]" "[Fin 3, Fin 4]"]
    by (simp_all add: is_zero_def)
  moreover have "cosineSimilarity None (Some [Fin 3, Fin 4]) = Fin 0"
    using cosineSimilarity_symmetric_zero [of None "Some [Fin 3, Fin 4]" "[]" "[]"] by blast
  moreover have "cosineSimilarity (Some [Fin 1, Fin 2]) (Some [Fin 3, Fin 4, Fin 5]) = Fin 0"
    using cosineSimilarity_symmetric_zero [of None None "[Fin 1, Fin 2]" "[Fin 3, Fin 4, Fin 5]"]
    by simp
  moreover have "cosineSimilarity (Some []) (Some []) = Fin 0"
    using cosineSimilarity_symmetric_zero [of None None "[]" "[]"] by simp
  ultimately show ?thesis by (intro conjI)
qed

section \<open>Rounding and order\<close>

text \<open>
  The sign of a rounded result. A double is a multiple of \<open>2 ^ - 1074\<close>, so the difference
  of two different doubles is at least that far from zero and does not round to zero: the
  comparator of the similarity search is positive exactly when its first argument has the
  smaller similarity.
\<close>

lemma pow2_pos: "0 < pow2 e"
  by (simp add: pow2_def)

lemma pow2_neg_int: "pow2 (- int n) = 1 / 2 ^ n"
  by (cases n) (simp_all add: pow2_def nat_add_distrib)

lemma pow2_succ: "pow2 (e + 1) = 2 * pow2 e"
proof (cases "0 \<le> e")
  case True
  then show ?thesis by (simp add: pow2_def nat_add_distrib)
next
  case False
  then have "0 < nat (- e)" by simp
  then obtain m where m: "nat (- e) = Suc m"
    by (auto simp: gr0_conv_Suc)
  with False have e: "e = - int (Suc m)" by linarith
  then have e1: "e + 1 = - int m" by simp
  show ?thesis
    unfolding e1 pow2_neg_int unfolding e pow2_neg_int by simp
qed

lemma pow2_shift: "pow2 (e + int n) = pow2 e * 2 ^ n"
proof (induction n)
  case 0
  show ?case by simp
next
  case (Suc n)
  have "e + int (Suc n) = (e + int n) + 1" by simp
  then have "pow2 (e + int (Suc n)) = pow2 ((e + int n) + 1)"
    by (rule arg_cong)
  also have "\<dots> = 2 * pow2 (e + int n)" by (rule pow2_succ)
  finally show ?case using Suc by simp
qed

lemma pow2_mono: 
  assumes "a \<le> b" 
  shows "pow2 a \<le> pow2 b"
proof -
  from assms obtain n where "b = a + int n"
    by (metis zle_iff_zadd)
  then show ?thesis
    using pow2_pos [of a] by (simp add: pow2_shift)
qed

lemma expo_lower: "x \<noteq> 0 \<Longrightarrow> pow2 (expo x) \<le> \<bar>x\<bar>"
proof (induction x rule: expo.induct)
  case (1 x)
  consider "2 \<le> \<bar>x\<bar>" | "\<bar>x\<bar> < 1" | "1 \<le> \<bar>x\<bar>" "\<bar>x\<bar> < 2" by linarith
  then show ?case
  proof cases
    case 1
    with "1.prems" have e: "expo x = expo (x / 2) + 1"
      by (subst expo.simps) simp
    have "pow2 (expo (x / 2)) \<le> \<bar>x / 2\<bar>"
      using 1 "1.prems" by (intro "1.IH"(1)) simp_all
    then show ?thesis
      unfolding e pow2_succ by simp
  next
    case 2
    with "1.prems" have e: "expo x = expo (x * 2) - 1"
      by (subst expo.simps) simp
    have "pow2 (expo (x * 2)) \<le> \<bar>x * 2\<bar>"
      using 2 "1.prems" by (intro "1.IH"(2)) simp_all
    moreover have "pow2 (expo (x * 2)) = 2 * pow2 (expo (x * 2) - 1)"
      using pow2_succ [of "expo (x * 2) - 1"] by simp
    ultimately show ?thesis
      unfolding e by (simp add: abs_mult)
  next
    case 3
    with "1.prems" have "expo x = 0"
      by (subst expo.simps) simp
    with 3 show ?thesis by (simp add: pow2_def)
  qed
qed


lemma pow2_least: "pow2 (- 1074) = 1 / 2 ^ 1074"
  by (simp add: pow2_def)

lemma round_even_floor: "\<lfloor>r\<rfloor> \<le> round_even r"
  by (simp add: round_even_def Let_def)

lemma round_even_ge_one: "1 \<le> r \<Longrightarrow> 1 \<le> round_even r"
proof -
  assume "1 \<le> r"
  then have "1 \<le> \<lfloor>r\<rfloor>" by (simp add: le_floor_iff)
  with round_even_floor [of r] show ?thesis by linarith
qed

lemma round_even_upper: "round_even r \<le> \<lfloor>r\<rfloor> + 1"
  by (simp add: round_even_def Let_def)

lemma round_even_nonpos:
  assumes "r \<le> 0"
  shows "round_even r \<le> 0"
proof -
  define f where "f = \<lfloor>r\<rfloor>"
  have f: "f \<le> 0" using assms by (simp add: f_def floor_le_iff)
  show ?thesis
  proof (cases "f = 0")
    case True
    then have "0 \<le> r" by (simp add: f_def floor_eq_iff)
    with assms have "r = 0" by simp
    then show ?thesis by (simp add: round_even_def)
  next
    case False
    with f have "f + 1 \<le> 0" by simp
    with round_even_upper [of r] show ?thesis by (simp add: f_def)
  qed
qed

lemma nearest_zero: "nearest 0 = 0"
  by (simp add: nearest_def round_even_def)

lemma quantum_pos: "0 < quantum x"
  by (simp add: quantum_def pow2_pos)

lemma quantum_le:
  assumes "pow2 (- 1074) \<le> z"
  shows "quantum z \<le> z"
proof (cases "- 1022 \<le> expo z")
  case True
  have "0 < z" using assms pow2_pos [of "- 1074"] by simp
  have "quantum z = pow2 (expo z - 52)"
    using True by (simp add: quantum_def max_def)
  also have "\<dots> \<le> pow2 (expo z)" by (rule pow2_mono) simp
  also have "\<dots> \<le> \<bar>z\<bar>" using \<open>0 < z\<close> by (intro expo_lower) simp
  finally show ?thesis using \<open>0 < z\<close> by simp
next
  case False
  then have "quantum z = pow2 (- 1074)"
    by (simp add: quantum_def max_def)
  with assms show ?thesis by simp
qed

lemma nearest_pos:
  assumes "pow2 (- 1074) \<le> z"
  shows "0 < nearest z"
proof -
  have "1 \<le> z / quantum z"
    using quantum_le [OF assms] quantum_pos [of z] by (simp add: le_divide_eq)
  then have "1 \<le> round_even (z / quantum z)" by (rule round_even_ge_one)
  then have "0 < real_of_int (round_even (z / quantum z))" by simp
  then show ?thesis
    unfolding nearest_def using quantum_pos [of z] by (rule mult_pos_pos)
qed

lemma nearest_nonpos:
  assumes "z \<le> 0"
  shows "nearest z \<le> 0"
proof -
  have "z / quantum z \<le> 0"
    using assms quantum_pos [of z] by (simp add: divide_le_0_iff)
  then have "round_even (z / quantum z) \<le> 0" by (rule round_even_nonpos)
  then have "real_of_int (round_even (z / quantum z)) \<le> 0" by simp
  then show ?thesis
    unfolding nearest_def using quantum_pos [of z] by (simp add: mult_le_0_iff)
qed

lemma quantum_grid: "\<exists>n. quantum x = 2 ^ n / 2 ^ 1074"
proof -
  define j where "j = max (expo x) (- 1022) - 52"
  have "- 1074 \<le> j" by (simp add: j_def)
  then obtain n where "j = - 1074 + int n"
    by (metis zle_iff_zadd)
  then have "pow2 j = pow2 (- 1074) * 2 ^ n"
    by (simp only: pow2_shift)
  then show ?thesis
    by (auto simp: quantum_def j_def pow2_least)
qed

lemma on_grid_nearest: "on_grid (Fin (nearest x))"
proof -
  obtain n where q: "quantum x = 2 ^ n / 2 ^ 1074"
    using quantum_grid by blast
  have "nearest x * 2 ^ 1074 = of_int (round_even (x / quantum x) * 2 ^ n)"
    unfolding nearest_def q by simp
  then show ?thesis
    by (simp add: on_grid_def)
qed

lemma on_grid_to_double: "on_grid (to_double neg x)"
  using on_grid_nearest [of x]
  by (auto simp: to_double_def Let_def signed_inf_def signed_zero_def on_grid_def)

lemma to_double_positive:
  assumes "of_int \<lfloor>z * 2 ^ 1074\<rfloor> = z * 2 ^ 1074"
  shows "fless (Fin 0) (to_double neg z) = (0 < z)"
proof -
  consider "0 < z" | "z = 0" | "z < 0" by linarith
  then show ?thesis
  proof cases
    case 1
    then have "0 < z * 2 ^ 1074" by simp
    with assms have "0 < \<lfloor>z * 2 ^ 1074\<rfloor>"
      by (metis of_int_0_less_iff)
    then have "1 \<le> real_of_int \<lfloor>z * 2 ^ 1074\<rfloor>" by simp
    with assms have "1 \<le> z * 2 ^ 1074" by simp
    then have "pow2 (- 1074) \<le> z"
      by (simp add: pow2_least field_simps)
    then have "0 < nearest z" by (rule nearest_pos)
    with 1 show ?thesis
      by (auto simp: to_double_def Let_def signed_inf_def fless_def val_def)
  next
    case 2
    then show ?thesis
      by (simp add: to_double_def nearest_zero signed_zero_def fless_def val_def)
  next
    case 3
    then have "nearest z \<le> 0" by (intro nearest_nonpos) simp
    with 3 show ?thesis
      by (auto simp: to_double_def Let_def signed_inf_def signed_zero_def fless_def val_def)
  qed
qed

lemma fsub_positive:
  assumes "on_grid a" and "on_grid b" and "a \<noteq> NaN" and "b \<noteq> NaN"
  shows "fless (Fin 0) (fsub b a) = fless a b"
proof -
  define c where "c = (2::real) ^ 1074"
  have fin: "fless (Fin 0) (to_double neg (val b - val a)) = (val a < val b)"
    if "\<not> is_inf a" "\<not> is_inf b" for neg
  proof -
    have ga: "of_int \<lfloor>val a * c\<rfloor> = val a * c"
      using assms(1,3) that(1) unfolding c_def
      by (cases a) (simp_all add: on_grid_def val_def is_inf_def)
    have gb: "of_int \<lfloor>val b * c\<rfloor> = val b * c"
      using assms(2,4) that(2) unfolding c_def
      by (cases b) (simp_all add: on_grid_def val_def is_inf_def)
    have "(val b - val a) * c = val b * c - val a * c"
      by (simp add: algebra_simps)
    also have "\<dots> = of_int (\<lfloor>val b * c\<rfloor> - \<lfloor>val a * c\<rfloor>)"
      by (simp only: of_int_diff ga gb)
    finally have "of_int \<lfloor>(val b - val a) * c\<rfloor> = (val b - val a) * c"
      by simp
    then show ?thesis
      unfolding c_def using to_double_positive [of "val b - val a" neg] by simp
  qed
  have v: "val (fneg a) = - val a" "is_inf (fneg a) = is_inf a" "fneg a \<noteq> NaN"
    using assms(3) by (cases a; simp add: fneg_def val_def is_inf_def)+
  show ?thesis
  proof (cases "is_inf a \<or> is_inf b")
    case True
    then show ?thesis
      using assms(3,4)
      by (cases a; cases b)
         (auto simp: fsub_def fadd_def fneg_def is_inf_def fless_def val_def)
  next
    case False
    then have "fsub b a = to_double (negative b \<and> negative (fneg a)) (val b - val a)"
      using assms(3,4) v by (simp add: fsub_def fadd_def)
    moreover have "fless a b = (val a < val b)"
      using False assms(3,4) by (auto simp: fless_def is_inf_def)
    ultimately show ?thesis using fin False by simp
  qed
qed

lemma fle_total: "a \<noteq> NaN \<Longrightarrow> b \<noteq> NaN \<Longrightarrow> \<not> fless a b \<Longrightarrow> fle b a"
  by (cases a; cases b) (auto simp: fle_def fless_def strict_eq_def is_zero_def val_def)

lemma fle_trans: "fle a b \<Longrightarrow> fle b c \<Longrightarrow> fle a c"
  by (cases a; cases b; cases c)
     (auto simp: fle_def fless_def strict_eq_def is_zero_def val_def split: if_splits)

section \<open>Similarity search\<close>

lemma set_insert_by: "set (insert_by cmp x ys) = insert x (set ys)"
  by (induction ys) auto

lemma length_insert_by: "length (insert_by cmp x ys) = Suc (length ys)"
  by (induction ys) simp_all

lemma set_array_sort: "set (array_sort cmp xs) = set xs"
  by (induction xs) (simp_all add: array_sort_def set_insert_by)

lemma length_array_sort: "length (array_sort cmp xs) = length xs"
  by (induction xs) (simp_all add: array_sort_def length_insert_by)







text \<open>
  What the search returns: as many matches as \<open>k\<close> allows among the documents whose
  \<open>embedding\<close> field is present, and the empty list without a call of the embedding service
  when no document has the field.
\<close>

lemma searchSimilarCases_none_present:
  "find_embedding_exists True db0 = [] \<Longrightarrow> searchSimilarCases e db0 query k = Inr []"
  by (simp add: searchSimilarCases_def)

lemma searchSimilarCases_length:
  assumes "searchSimilarCases e db0 query k = Inr rs"
  shows "length rs = min k (length (find_embedding_exists True db0))"
proof (cases "find_embedding_exists True db0 = []")
  case True
  with assms show ?thesis by (simp add: searchSimilarCases_def)
next
  case False
  with assms obtain q where
    rs: "rs = take k (array_sort bySimilarity (map (scoreCase q) (find_embedding_exists True db0)))"
    by (auto simp: searchSimilarCases_def Let_def split: sum.splits)
  show ?thesis unfolding rs by (simp add: length_array_sort min.commute)
qed

text \<open>
  The order of the result. Where no similarity is NaN the comparator is consistent, and
  the matches are in non-increasing order of similarity.
\<close>

lemma on_grid_cosine: "on_grid (cosineSimilarity a b)"
proof -
  have "on_grid (fdiv x y)" for x y
    using on_grid_to_double [of "negative x \<noteq> negative y" "val x / val y"]
    by (auto simp: fdiv_def signed_inf_def signed_zero_def on_grid_def)
  then show ?thesis
    by (auto simp: cosineSimilarity_def Let_def on_grid_def split: option.splits)
qed

lemma compare_similarity:
  assumes "on_grid (similarity x)" "similarity x \<noteq> NaN"
    and "on_grid (similarity y)" "similarity y \<noteq> NaN"
  shows "fless (Fin 0) (bySimilarity x y) = fless (similarity x) (similarity y)"
  unfolding bySimilarity_def using assms by (intro fsub_positive)

lemma sorted_insert_by:
  assumes "\<forall>y\<in>set (x # ys). on_grid (similarity y) \<and> similarity y \<noteq> NaN"
    and "sorted_wrt (\<lambda>a b. fle (similarity b) (similarity a)) ys"
  shows "sorted_wrt (\<lambda>a b. fle (similarity b) (similarity a)) (insert_by bySimilarity x ys)"
  using assms
proof (induction ys)
  case Nil
  show ?case by simp
next
  case (Cons y ys)
  have cmp: "fless (Fin 0) (bySimilarity x y) = fless (similarity x) (similarity y)"
    using Cons.prems(1) by (intro compare_similarity) simp_all
  show ?case
  proof (cases "fless (similarity x) (similarity y)")
    case True
    have tail: "sorted_wrt (\<lambda>a b. fle (similarity b) (similarity a)) (insert_by bySimilarity x ys)"
      using Cons.prems by (intro Cons.IH) simp_all
    have "fle (similarity x) (similarity y)"
      using True by (simp add: fle_def)
    moreover have "\<forall>z\<in>set ys. fle (similarity z) (similarity y)"
      using Cons.prems(2) by simp
    ultimately have "\<forall>z\<in>set (insert_by bySimilarity x ys). fle (similarity z) (similarity y)"
      by (simp add: set_insert_by)
    with tail True cmp show ?thesis by simp
  next
    case False
    have yx: "fle (similarity y) (similarity x)"
      using False Cons.prems(1) by (intro fle_total) simp_all
    have "fle (similarity z) (similarity x)" if "z \<in> set ys" for z
    proof -
      have "fle (similarity z) (similarity y)" using Cons.prems(2) that by simp
      then show ?thesis using yx by (rule fle_trans)
    qed
    with yx False cmp Cons.prems(2) show ?thesis by simp
  qed
qed

lemma sorted_array_sort:
  assumes "\<forall>y\<in>set xs. on_grid (similarity y) \<and> similarity y \<noteq> NaN"
  shows "sorted_wrt (\<lambda>a b. fle (similarity b) (similarity a)) (array_sort bySimilarity xs)"
  using assms
proof (induction xs)
  case Nil
  show ?case by (simp add: array_sort_def)
next
  case (Cons x xs)
  have "sorted_wrt (\<lambda>a b. fle (similarity b) (similarity a)) (array_sort bySimilarity xs)"
    using Cons by simp
  moreover have "\<forall>y\<in>set (x # array_sort bySimilarity xs). on_grid (similarity y) \<and> similarity y \<noteq> NaN"
    using Cons.prems by (simp add: set_array_sort)
  ultimately have "sorted_wrt (\<lambda>a b. fle (similarity b) (similarity a))
                     (insert_by bySimilarity x (array_sort bySimilarity xs))"
    by (intro sorted_insert_by)
  then show ?case by (simp add: array_sort_def)
qed

lemma searchSimilarCases_sorted_length:
  assumes "createEmbedding e query = Inr q"
    and "\<forall>d\<in>set db0. cosineSimilarity (Some q) (emb_value (embedding d)) \<noteq> NaN"
  shows "\<exists>rs. searchSimilarCases e db0 query k = Inr rs
            \<and> sorted_wrt (\<lambda>a b. fle (similarity b) (similarity a)) rs
            \<and> length rs = min k (length (find_embedding_exists True db0))"
proof (cases "find_embedding_exists True db0 = []")
  case True
  then show ?thesis by (simp add: searchSimilarCases_def)
next
  case False
  let ?scored = "map (scoreCase q) (find_embedding_exists True db0)"
  have res: "searchSimilarCases e db0 query k = Inr (take k (array_sort bySimilarity ?scored))"
    using False assms(1) by (simp add: searchSimilarCases_def)
  have "\<forall>y\<in>set ?scored. on_grid (similarity y) \<and> similarity y \<noteq> NaN"
    using assms(2) by (auto simp: scoreCase_def on_grid_cosine find_embedding_exists_def)
  then have "sorted_wrt (\<lambda>a b. fle (similarity b) (similarity a)) (array_sort bySimilarity ?scored)"
    by (rule sorted_array_sort)
  then have "sorted_wrt (\<lambda>a b. fle (similarity b) (similarity a))
               (take k (array_sort bySimilarity ?scored))"
    by (rule sorted_wrt_take)
  then show ?thesis
    unfolding res by (simp add: length_array_sort min.commute)
qed

text \<open>
  \<^bold>\<open>C1\<close>: the result is sorted by non-increasing similarity, is no longer than the number
  of precedents carrying a non-null embedding, and is empty when no precedent is embedded.
  The code on a collection whose only precedent had its index deleted (\<open>deleteIndex\<close> sets
  the embedding to \<open>null\<close>): no precedent carries a vector, yet the filter on the presence
  of the field selects the precedent and the search returns it with similarity \<open>0\<close>.
\<close>

theorem searchSimilarCases_cleared_index:
  "filter has_vector store_cleared = []
   \<and> searchSimilarCases env_up store_cleared ''murder'' 5 = Inr [match_cleared]
   \<and> \<not> length [match_cleared] \<le> min 5 (length (filter has_vector store_cleared))"
  by (simp add: searchSimilarCases_def find_embedding_exists_def store_cleared_def
      store_indexed_def deleteIndex_def findByIdAndUpdate_def has_vector_def new_doc_def
      payload1_def env_up_def createEmbedding_def scoreCase_def cosineSimilarity_def
      emb_value_def js_or_def match_cleared_def array_sort_def)

text \<open>
  \<^bold>\<open>C9\<close>: when no precedent carries an embedding the search returns the empty list before
  it embeds the query, so it succeeds without the embedding service. The code on the same
  collection with no API key configured: the precedent with the \<open>null\<close> embedding passes
  the filter, the query is embedded and the error of \<open>createEmbedding\<close> is thrown on.
\<close>

theorem searchSimilarCases_cleared_index_unconfigured:
  "filter has_vector store_cleared = []
   \<and> searchSimilarCases env_down store_cleared ''murder'' 5
       = Inl ''Failed to create embedding: XAI_API_KEY is not set. Embedding features are disabled.''"
  by (simp add: searchSimilarCases_def find_embedding_exists_def store_cleared_def
      store_indexed_def deleteIndex_def findByIdAndUpdate_def has_vector_def new_doc_def
      payload1_def env_down_def env_up_def createEmbedding_def)

section \<open>Extraction of IPC sections\<close>

text \<open>
  The four patterns of \<open>_extractIPCSections\<close> start with a literal word, so each of their
  matches reads at least one character and the scan loop always moves on: the second test
  in \<^const>\<open>scanPattern\<close> never ends a scan of theirs.
\<close>

lemma rmatch_length: "(s', g') \<in> set (rmatch r (s, g)) \<Longrightarrow> length s' \<le> length s"
proof (induction r arbitrary: s g s' g')
  case (C k)
  then show ?case by (auto split: list.splits if_splits)
next
  case (Seq a b)
  from Seq.prems obtain m where m: "m \<in> set (rmatch a (s, g))" and s': "(s', g') \<in> set (rmatch b m)"
    by auto
  obtain s1 g1 where m_eq: "m = (s1, g1)" by (cases m)
  from Seq.IH(1) m m_eq have "length s1 \<le> length s" by blast
  moreover from Seq.IH(2) s' m_eq have "length s' \<le> length s1" by blast
  ultimately show ?case by simp
next
  case (Alt a b)
  then show ?case by auto
next
  case (Opt a)
  then show ?case by auto
next
  case (Grp a)
  then show ?case by auto
next
  case (Ahead a)
  then show ?case by (auto split: if_splits)
qed (auto split: if_splits)

lemma rmatch_consumes:
  "consumes r \<Longrightarrow> (s', g') \<in> set (rmatch r (s, g)) \<Longrightarrow> length s' < length s"
proof (induction r arbitrary: s g s' g')
  case (C k)
  then show ?case by (auto split: list.splits if_splits)
next
  case (Seq a b)
  from Seq.prems obtain m where m: "m \<in> set (rmatch a (s, g))" and s': "(s', g') \<in> set (rmatch b m)"
    by auto
  obtain s1 g1 where m_eq: "m = (s1, g1)" by (cases m)
  have le1: "length s1 \<le> length s" using rmatch_length m m_eq by blast
  have le2: "length s' \<le> length s1" using rmatch_length s' m_eq by blast
  from Seq.prems(1) consider "consumes a" | "consumes b" by auto
  then show ?case
  proof cases
    case 1
    with Seq.IH(1) m m_eq have "length s1 < length s" by blast
    with le2 show ?thesis by simp
  next
    case 2
    with Seq.IH(2) s' m_eq have "length s' < length s1" by blast
    with le1 show ?thesis by simp
  qed
next
  case (Alt a b)
  then show ?case by auto
next
  case (Plus k)
  then show ?case by (cases s) auto
next
  case (Grp a)
  then show ?case by auto
qed simp_all

lemma rexec_consumes:
  "consumes r \<Longrightarrow> rexec r s = Some (g, rest) \<Longrightarrow> length rest < length s"
proof (induction s)
  case Nil
  then obtain ms where "rmatch r ([], []) = (rest, g) # ms"
    by (auto split: list.splits)
  then have "(rest, g) \<in> set (rmatch r ([], []))" by simp
  with Nil.prems(1) show ?case using rmatch_consumes by fastforce
next
  case (Cons c cs)
  show ?case
  proof (cases "rmatch r (c # cs, [])")
    case Nil
    with Cons show ?thesis by fastforce
  next
    case (Cons m ms)
    with Cons.prems have "m = (rest, g)" by (auto split: prod.splits)
    with Cons have "(rest, g) \<in> set (rmatch r (c # cs, []))" by simp
    with Cons.prems(1) show ?thesis using rmatch_consumes by blast
  qed
qed

lemma consumes_str: "s \<noteq> [] \<Longrightarrow> consumes (Seq (str s) r)"
  by (cases s) (simp_all add: str_def)

lemma ipcPatterns_consume: "p \<in> set ipcPatterns \<Longrightarrow> consumes p"
  by (auto simp: ipcPatterns_def str_def)

lemma scanPattern_unguarded:
  "consumes p \<Longrightarrow>
   scanPattern p s secs =
     (case rexec p s of
        None \<Rightarrow> secs
      | Some (g, rest) \<Rightarrow>
          if length secs < 20 then scanPattern p rest (set_add (JStr g) secs) else secs)"
  by (subst scanPattern.simps) (auto split: option.splits dest: rexec_consumes)

lemma distinct_set_add: "distinct xs \<Longrightarrow> distinct (set_add x xs)"
  by (simp add: set_add_def)

lemma distinct_scanPattern: "distinct secs \<Longrightarrow> distinct (scanPattern p s secs)"
proof (induction p s secs rule: scanPattern.induct)
  case (1 p s secs)
  show ?case
  proof (cases "rexec p s")
    case None
    with 1 show ?thesis by (subst scanPattern.simps) simp
  next
    case (Some m)
    obtain g rest where m: "m = (g, rest)" by (cases m)
    show ?thesis
    proof (cases "length secs < 20 \<and> length rest < length s")
      case True
      with 1 Some m have "distinct (scanPattern p rest (set_add (JStr g) secs))"
        by (simp add: distinct_set_add)
      with True Some m show ?thesis by (subst scanPattern.simps) simp
    next
      case False
      with 1 Some m show ?thesis by (subst scanPattern.simps) auto
    qed
  qed
qed

lemma distinct_fold_scan:
  "distinct secs \<Longrightarrow> distinct (fold (\<lambda>p secs. scanPattern p s secs) ps secs)"
  by (induction ps arbitrary: secs) (simp_all add: distinct_scanPattern)

lemma distinct_addDirect: "distinct secs \<Longrightarrow> addDirect x secs = Inr secs' \<Longrightarrow> distinct secs'"
  by (induction x secs rule: addDirect.induct) (auto simp: distinct_set_add split: if_splits)

lemma distinct_forEach_addDirect:
  "distinct secs \<Longrightarrow> forEach addDirect es secs = Inr secs' \<Longrightarrow> distinct secs'"
proof (induction es arbitrary: secs)
  case Nil
  then show ?case by simp
next
  case (Cons x xs)
  from Cons.prems(2) obtain mid where mid: "addDirect x secs = Inr mid"
    and rest: "forEach addDirect xs mid = Inr secs'"
    by (auto split: sum.splits)
  from Cons.prems(1) mid have "distinct mid" by (rule distinct_addDirect)
  then show ?case using rest by (rule Cons.IH)
qed

lemma sample_sections: "extractIPCSections sample_judgment = Inr [JStr ''302'', JStr ''34'']"
  by code_simp

lemma listed_sections:
  "extractIPCSections listed_judgment = Inr [JNum (Fin 302), JStr ''302'', JStr ''34'']"
  by code_simp

text \<open>
  The values returned are pairwise different as values, and at most 15: the scan stops
  adding at 20 and the last step keeps 15.
\<close>

lemma extractIPCSections_values_distinct:
  assumes "extractIPCSections data = Inr secs"
  shows "distinct secs \<and> length secs \<le> 15"
proof -
  from assms obtain direct where
    direct: "(case ipc_sections data of None \<Rightarrow> Inr [] | Some es \<Rightarrow> forEach addDirect es []) = Inr direct"
    and secs: "secs = take 15 (fold (\<lambda>p secs. scanPattern p
                 (join '' '' [opt_str (kd_title data), opt_str (kd_judgment data),
                              opt_str (kd_facts data), opt_str (kd_summary data)]) secs)
                 ipcPatterns direct)"
    by (auto simp: extractIPCSections_def Let_def split: sum.splits)
  have "distinct direct"
  proof (cases "ipc_sections data")
    case None
    with direct show ?thesis by simp
  next
    case (Some es)
    with direct have "forEach addDirect es [] = Inr direct" by simp
    moreover have "distinct ([] :: jsval list)" by simp
    ultimately show ?thesis by (rule distinct_forEach_addDirect [rotated])
  qed
  then show ?thesis
    unfolding secs by (simp add: distinct_fold_scan)
qed

lemma text_302: "show_int 302 = ''302''"
  by code_simp

text \<open>
  \<^bold>\<open>C7\<close>: the extraction returns each section identifier at most once, and at most 20.
  The code on a judgment whose structured list names section 302 as a number and whose
  text mentions \<open>Section 302 IPC\<close>: the scan of the text adds its match as a string, the
  structured list adds the \<open>section\<close> property as it is, the two are different members of
  the \<open>Set\<close>, and section 302 is returned twice.
\<close>

theorem extractIPCSections_section_twice:
  "extractIPCSections listed_judgment = Inr [JNum (Fin 302), JStr ''302'', JStr ''34'']
   \<and> map section_text [JNum (Fin 302), JStr ''302'', JStr ''34'']
       = [Some ''302'', Some ''302'', Some ''34'']
   \<and> \<not> distinct (map section_text [JNum (Fin 302), JStr ''302'', JStr ''34''])"
  by (simp add: listed_sections section_text_def text_302)

section \<open>Saving a fetched case\<close>

lemma find_append_last:
  "find P (xs @ [d]) = (case find P xs of Some x \<Rightarrow> Some x | None \<Rightarrow> if P d then Some d else None)"
  by (induction xs) simp_all

lemma find_first:
  "\<forall>d\<in>set pre. \<not> P d \<Longrightarrow> P x \<Longrightarrow> find P (pre @ x # post) = Some x"
  by (induction pre) simp_all

lemma fresh_id_append: "fresh_id (st0 @ [d]) = max (fresh_id st0) (Suc (doc_id d))"
  by (induction st0) (simp_all add: fresh_id_def max.commute max.left_commute)

text \<open>
  The lookup of \<open>_saveCaseToDatabase\<close> on documents that have the two fields: the first
  document with the \<open>sourceId\<close> or the \<open>kanoonUrl\<close> of the payload is returned and nothing is
  written.
\<close>

lemma saveCaseToDatabase_existing:
  assumes "db1 = pre @ x # post"
    and "\<forall>d\<in>set pre. sourceId d \<noteq> sourceId p \<and> kanoonUrl d \<noteq> kanoonUrl p"
    and "sourceId x = sourceId p \<or> kanoonUrl x = kanoonUrl p"
  shows "saveCaseToDatabase e db1 p = Inr (db1, x)"
proof -
  from assms(2) have pre: "\<forall>d\<in>set pre. \<not> (sourceId d = sourceId p \<or> kanoonUrl d = kanoonUrl p)"
    by auto
  have "findOne p db1 = Some x"
    unfolding findOne_def assms(1) using pre assms(3) by (rule find_first)
  then show ?thesis
    by (simp add: saveCaseToDatabase_def)
qed

lemma same_url_found:
  "sourceId payload_same_url \<noteq> sourceId payload1
   \<and> saveCaseToDatabase env_up store_one payload_same_url = Inr (store_one, raw_doc 0 payload1)"
  by (simp add: saveCaseToDatabase_def findOne_def store_one_def raw_doc_def new_doc_def
      payload_same_url_def payload1_def)

text \<open>
  A document that was saved through the model has neither field, so the lookup of a payload
  that has a \<open>sourceId\<close> and a URL never finds it: the same case saved again is inserted
  again.
\<close>

lemma findOne_skips_saved:
  "sourceId p \<noteq> None \<Longrightarrow> kanoonUrl p \<noteq> None \<Longrightarrow>
   findOne p (st0 @ [new_doc i cd]) = findOne p st0"
  by (auto simp: findOne_def find_append_last new_doc_def split: option.splits)

lemma saveCaseToDatabase_again:
  assumes "findOne p1 db0 = None" and "findOne p2 db0 = None"
    and "sourceId p2 \<noteq> None" and "kanoonUrl p2 \<noteq> None"
    and "db_save_error e db0 (withYear e p1) = None"
    and "db_save_error e (db0 @ [new_doc (fresh_id db0) (withYear e p1)]) (withYear e p2) = None"
  shows "saveCaseToDatabase e db0 p1
           = Inr (db0 @ [new_doc (fresh_id db0) (withYear e p1)],
                  new_doc (fresh_id db0) (withYear e p1))"
    and "saveCaseToDatabase e (db0 @ [new_doc (fresh_id db0) (withYear e p1)]) p2
           = Inr (db0 @ [new_doc (fresh_id db0) (withYear e p1),
                        new_doc (Suc (fresh_id db0)) (withYear e p2)],
                  new_doc (Suc (fresh_id db0)) (withYear e p2))"
proof -
  let ?d1 = "new_doc (fresh_id db0) (withYear e p1)"
  show "saveCaseToDatabase e db0 p1 = Inr (db0 @ [?d1], ?d1)"
    using assms(1,5) by (simp add: saveCaseToDatabase_def Let_def)
  have "findOne p2 (db0 @ [?d1]) = None"
    using assms(2,3,4) by (simp add: findOne_skips_saved)
  moreover have "fresh_id (db0 @ [?d1]) = Suc (fresh_id db0)"
    by (simp add: fresh_id_append new_doc_def)
  ultimately show "saveCaseToDatabase e (db0 @ [?d1]) p2
           = Inr (db0 @ [?d1, new_doc (Suc (fresh_id db0)) (withYear e p2)],
                  new_doc (Suc (fresh_id db0)) (withYear e p2))"
    using assms(6) by (simp add: saveCaseToDatabase_def Let_def)
qed

text \<open>
  \<^bold>\<open>C5\<close>: saving two payloads with the same \<open>sourceId\<close> leaves one record, the first, and
  the second call returns it. The code on two fetches of the Kanoon document 1, saved one
  after the other into an empty collection: the first call stores the case without its
  \<open>sourceId\<close> and its \<open>kanoonUrl\<close>, the lookup of the second call finds nothing, and the
  second call stores and returns a second record.
\<close>

theorem saveCaseToDatabase_stores_twice:
  "sourceId payload1b = sourceId payload1 \<and> kanoonUrl payload1b = kanoonUrl payload1
   \<and> saveCaseToDatabase env_up [] payload1 = Inr ([new_doc 0 payload1], new_doc 0 payload1)
   \<and> findOne payload1b [new_doc 0 payload1] = None
   \<and> saveCaseToDatabase env_up [new_doc 0 payload1] payload1b
       = Inr ([new_doc 0 payload1, new_doc 1 payload1b], new_doc 1 payload1b)
   \<and> new_doc 1 payload1b \<noteq> new_doc 0 payload1
   \<and> length [new_doc 0 payload1, new_doc 1 payload1b] = 2"
  by (simp add: saveCaseToDatabase_def findOne_def withYear_def falsy_year_def fresh_id_def
      new_doc_def payload1b_def payload1_def env_up_def Let_def)

section \<open>Batch synchronisation and bulk indexing\<close>

lemma processDoc_step:
  "outcomes (processDoc e q doc s) = outcomes s + 1
   \<and> (consistent s \<longrightarrow> consistent (processDoc e q doc s))
   \<and> searchedQueries (st (processDoc e q doc s)) = searchedQueries (st s)"
  by (auto simp: processDoc_def recordFailure_def outcomes_def consistent_def Let_def
           split: sum.splits prod.splits)

lemma fold_processDoc:
  "outcomes (fold (processDoc e q) docs s) = outcomes s + length docs
   \<and> (consistent s \<longrightarrow> consistent (fold (processDoc e q) docs s))
   \<and> searchedQueries (st (fold (processDoc e q) docs s)) = searchedQueries (st s)"
proof (induction docs arbitrary: s)
  case Nil
  show ?case by simp
next
  case (Cons d ds)
  show ?case
    using Cons.IH [of "processDoc e q d s"] processDoc_step [of e q d s] by simp
qed

lemma processQuery_step:
  "outcomes (processQuery e limit q s) = outcomes s + attempted e limit q
   \<and> (consistent s \<longrightarrow> consistent (processQuery e limit q s))
   \<and> searchedQueries (st (processQuery e limit q s)) = searchedQueries (st s) + 1"
proof (cases "searchCases e q")
  case (Inl m)
  then show ?thesis
    by (simp add: processQuery_def recordFailure_def outcomes_def consistent_def attempted_def Let_def)
next
  case (Inr docs)
  let ?s1 = "s\<lparr>st := (st s)\<lparr>searchedQueries := searchedQueries (st s) + 1\<rparr>\<rparr>"
  let ?s2 = "?s1\<lparr>st := (st ?s1)\<lparr>casesFound := casesFound (st ?s1) + length docs\<rparr>\<rparr>"
  show ?thesis
  proof (cases "docs = []")
    case True
    with Inr show ?thesis
      by (simp add: processQuery_def outcomes_def consistent_def attempted_def Let_def)
  next
    case False
    have pq: "processQuery e limit q s = fold (processDoc e q) (take limit docs) ?s2"
      using Inr False by (simp add: processQuery_def Let_def)
    have "outcomes ?s2 = outcomes s" "consistent s \<longrightarrow> consistent ?s2"
         "searchedQueries (st ?s2) = searchedQueries (st s) + 1"
      by (simp_all add: outcomes_def consistent_def)
    with fold_processDoc [of e q "take limit docs" ?s2] Inr show ?thesis
      unfolding pq by (simp add: attempted_def)
  qed
qed

lemma fold_processQuery:
  "outcomes (fold (processQuery e limit) qs s) = outcomes s + sum_list (map (attempted e limit) qs)
   \<and> (consistent s \<longrightarrow> consistent (fold (processQuery e limit) qs s))
   \<and> searchedQueries (st (fold (processQuery e limit) qs s)) = searchedQueries (st s) + length qs"
proof (induction qs arbitrary: s)
  case Nil
  show ?case by simp
next
  case (Cons q qs)
  show ?case
    using Cons.IH [of "processQuery e limit q s"] processQuery_step [of e limit q s] by simp
qed

lemma report_tallies:
  "searchedQueries (r_stats (snd (fetchAndIndexCases e db0 queries limit))) = length queries
   \<and> length (r_cases (snd (fetchAndIndexCases e db0 queries limit)))
       + length (r_errors (snd (fetchAndIndexCases e db0 queries limit)))
       = sum_list (map (attempted e limit) queries)
   \<and> r_failed (snd (fetchAndIndexCases e db0 queries limit))
       = length (r_errors (snd (fetchAndIndexCases e db0 queries limit)))
   \<and> errors (r_stats (snd (fetchAndIndexCases e db0 queries limit)))
       = length (r_errors (snd (fetchAndIndexCases e db0 queries limit)))
   \<and> r_indexed (snd (fetchAndIndexCases e db0 queries limit))
       = length (r_cases (snd (fetchAndIndexCases e db0 queries limit)))
   \<and> casesIndexed (r_stats (snd (fetchAndIndexCases e db0 queries limit)))
       = length (r_cases (snd (fetchAndIndexCases e db0 queries limit)))
   \<and> (r_success (snd (fetchAndIndexCases e db0 queries limit))
        \<longleftrightarrow> r_cases (snd (fetchAndIndexCases e db0 queries limit)) \<noteq> [])"
proof -
  let ?s0 = "sync_init db0"
  have "outcomes ?s0 = 0" "consistent ?s0" "searchedQueries (st ?s0) = 0"
    by (simp_all add: outcomes_def consistent_def sync_init_def)
  with fold_processQuery [of e limit queries ?s0] show ?thesis
    by (simp add: fetchAndIndexCases_def Let_def outcomes_def consistent_def)
qed

lemma find_unique:
  "x \<in> set xs \<Longrightarrow> P x \<Longrightarrow> \<forall>y\<in>set xs. P y \<longrightarrow> y = x \<Longrightarrow> find P xs = Some x"
proof (induction xs)
  case Nil
  then show ?case by simp
next
  case (Cons a xs)
  show ?case
  proof (cases "P a")
    case True
    with Cons.prems(3) have "a = x" by simp
    with True show ?thesis by simp
  next
    case False
    with Cons.prems have "x \<in> set xs" "\<forall>y\<in>set xs. P y \<longrightarrow> y = x" by auto
    then have "find P xs = Some x" using Cons.prems(2) by (intro Cons.IH)
    with False show ?thesis by simp
  qed
qed

lemma indexLoop_map:
  "distinct (map doc_id ds) \<Longrightarrow>
   indexLoop e ds st0 =
     map (\<lambda>x. case find (\<lambda>d. doc_id d = doc_id x) ds of
                None \<Rightarrow> x
              | Some d \<Rightarrow> (case createEmbedding e (caseText d) of
                             Inl m \<Rightarrow> x | Inr v \<Rightarrow> x\<lparr>embedding := Vec v\<rparr>)) st0"
proof -
  define f where "f = (\<lambda>ds (x::precedent). case find (\<lambda>d. doc_id d = doc_id x) ds of
                None \<Rightarrow> x
              | Some d \<Rightarrow> (case createEmbedding e (caseText d) of
                             Inl m \<Rightarrow> x | Inr v \<Rightarrow> x\<lparr>embedding := Vec v\<rparr>))"
  have "distinct (map doc_id ds) \<Longrightarrow> indexLoop e ds st0 = map (f ds) st0"
  proof (induction ds arbitrary: st0)
    case Nil
    show ?case by (simp add: f_def)
  next
    case (Cons d ds)
    have "doc_id d \<notin> doc_id ` set ds" using Cons.prems by simp
    then have "\<forall>d'\<in>set ds. doc_id d' \<noteq> doc_id d" by (metis imageI)
    then have none: "find (\<lambda>d'. doc_id d' = doc_id d) ds = None"
      by (simp add: find_None_iff)
    have dist: "distinct (map doc_id ds)" using Cons.prems by simp
    have other: "f (d # ds) x = f ds x" if "doc_id d \<noteq> doc_id x" for x
      using that by (simp add: f_def)
    have at_d: "f ds y = y" if "doc_id y = doc_id d" for y
      using that none by (simp add: f_def)
    show ?case
    proof (cases "createEmbedding e (caseText d)")
      case (Inl m)
      have hit: "f (d # ds) x = x" if "doc_id d = doc_id x" for x
        using that Inl by (simp add: f_def)
      have "indexLoop e (d # ds) st0 = indexLoop e ds st0"
        using Inl by (simp add: indexCase_def)
      also have "\<dots> = map (f ds) st0" by (rule Cons.IH [OF dist])
      also have "\<dots> = map (f (d # ds)) st0"
      proof (rule map_cong [OF refl])
        fix x show "f ds x = f (d # ds) x"
        proof (cases "doc_id d = doc_id x")
          case True
          then show ?thesis using hit [OF True] at_d [of x] by simp
        next
          case False
          then show ?thesis using other by simp
        qed
      qed
      finally show ?thesis .
    next
      case (Inr v)
      define u where "u = (\<lambda>x::precedent. if doc_id x = doc_id d then x\<lparr>embedding := Vec v\<rparr> else x)"
      have hit: "f (d # ds) x = x\<lparr>embedding := Vec v\<rparr>" if "doc_id d = doc_id x" for x
        using that Inr by (simp add: f_def)
      have "indexLoop e (d # ds) st0 = indexLoop e ds (map u st0)"
        using Inr by (simp add: indexCase_def findByIdAndUpdate_def u_def)
      also have "\<dots> = map (f ds) (map u st0)" by (rule Cons.IH [OF dist])
      also have "\<dots> = map (\<lambda>x. f ds (u x)) st0" by (simp add: comp_def)
      also have "\<dots> = map (f (d # ds)) st0"
      proof (rule map_cong [OF refl])
        fix x show "f ds (u x) = f (d # ds) x"
        proof (cases "doc_id d = doc_id x")
          case True
          then have ux: "u x = x\<lparr>embedding := Vec v\<rparr>" by (simp add: u_def)
          have "f ds (x\<lparr>embedding := Vec v\<rparr>) = x\<lparr>embedding := Vec v\<rparr>"
            by (rule at_d) (simp add: True)
          then show ?thesis using hit [OF True] ux by simp
        next
          case False
          then have "u x = x" by (auto simp: u_def)
          then show ?thesis using other [OF False] by simp
        qed
      qed
      finally show ?thesis .
    qed
  qed
  then show "distinct (map doc_id ds) \<Longrightarrow>
   indexLoop e ds st0 =
     map (\<lambda>x. case find (\<lambda>d. doc_id d = doc_id x) ds of
                None \<Rightarrow> x
              | Some d \<Rightarrow> (case createEmbedding e (caseText d) of
                             Inl m \<Rightarrow> x | Inr v \<Rightarrow> x\<lparr>embedding := Vec v\<rparr>)) st0"
    by (simp add: f_def)
qed



lemma indexAllCases_map:
  assumes "distinct (map doc_id db0)"
  shows "indexAllCases e db0 = (length (find_embedding_exists False db0), map (reembed e) db0)"
proof -
  define ds where "ds = find_embedding_exists False db0"
  have ds: "ds = filter (\<lambda>d. embedding d = Missing) db0"
    by (simp add: ds_def find_embedding_exists_def)
  have dist: "distinct (map doc_id ds)"
    unfolding ds using assms by (rule distinct_map_filter)
  have inj: "inj_on doc_id (set db0)"
    using assms by (simp add: distinct_map)
  have sub: "y \<in> set db0 \<and> embedding y = Missing" if "y \<in> set ds" for y
    using that by (simp add: ds)
  have same: "y = x" if "y \<in> set ds" "doc_id y = doc_id x" "x \<in> set db0" for x y
    using sub [OF that(1)] that(2,3) inj by (meson inj_onD)
  have pick: "find (\<lambda>d. doc_id d = doc_id x) ds = (if embedding x = Missing then Some x else None)"
    if x: "x \<in> set db0" for x
  proof (cases "embedding x = Missing")
    case True
    have "find (\<lambda>d. doc_id d = doc_id x) ds = Some x"
    proof (rule find_unique)
      show "x \<in> set ds" using x True by (simp add: ds)
      show "doc_id x = doc_id x" by (rule refl)
      show "\<forall>y\<in>set ds. doc_id y = doc_id x \<longrightarrow> y = x"
        using same x by blast
    qed
    with True show ?thesis by simp
  next
    case False
    have "\<forall>y\<in>set ds. doc_id y \<noteq> doc_id x"
    proof (intro ballI notI)
      fix y assume y: "y \<in> set ds" and eq: "doc_id y = doc_id x"
      from same [OF y eq x] sub [OF y] False show False by simp
    qed
    then have "find (\<lambda>d. doc_id d = doc_id x) ds = None"
      by (simp add: find_None_iff)
    with False show ?thesis by simp
  qed
  have "indexLoop e ds db0 = map (reembed e) db0"
    unfolding indexLoop_map [OF dist]
  proof (rule map_cong [OF refl])
    fix x assume "x \<in> set db0"
    from pick [OF this]
    show "(case find (\<lambda>d. doc_id d = doc_id x) ds of None \<Rightarrow> x
           | Some d \<Rightarrow> (case createEmbedding e (caseText d) of Inl m \<Rightarrow> x
                         | Inr v \<Rightarrow> x\<lparr>embedding := Vec v\<rparr>)) = reembed e x"
      by (simp add: reembed_def)
  qed
  then show ?thesis by (simp add: indexAllCases_def Let_def ds_def)
qed

lemma processQuery_search_fails:
  "searchCases e q = Inl m \<Longrightarrow>
   failedCases (processQuery e limit q s) = failedCases s @ [QueryFailure q m]
   \<and> indexedCases (processQuery e limit q s) = indexedCases s
   \<and> db (processQuery e limit q s) = db s"
  by (simp add: processQuery_def recordFailure_def Let_def)

lemma processDoc_fetch_fails:
  "fetchCaseDetails e (tid doc) True = Inl m \<Longrightarrow>
   failedCases (processDoc e q doc s) = failedCases s @ [DocFailure q (tid doc) (sd_title doc) m]
   \<and> indexedCases (processDoc e q doc s) = indexedCases s
   \<and> db (processDoc e q doc s) = db s"
  by (simp add: processDoc_def recordFailure_def)



lemma flaky_texts:
  "take 8000 (caseText (raw_doc 0 payload1)) = caseText (raw_doc 0 payload1)"
  "take 8000 (caseText (raw_doc 1 payload2)) = caseText (raw_doc 1 payload2)"
  "caseText (raw_doc 1 payload2) \<noteq> caseText (raw_doc 0 payload1)"
proof -
  have "length (caseText (raw_doc 0 payload1)) \<le> 8000" by code_simp
  then show "take 8000 (caseText (raw_doc 0 payload1)) = caseText (raw_doc 0 payload1)"
    by (rule take_all)
  have "length (caseText (raw_doc 1 payload2)) \<le> 8000" by code_simp
  then show "take 8000 (caseText (raw_doc 1 payload2)) = caseText (raw_doc 1 payload2)"
    by (rule take_all)
  show "caseText (raw_doc 1 payload2) \<noteq> caseText (raw_doc 0 payload1)" by code_simp
qed

lemma flaky_run:
  "map (reembed env_flaky) store_two
     = [raw_doc 0 payload1, (raw_doc 1 payload2)\<lparr>embedding := Vec [Fin 1, Fin 0]\<rparr>]"
proof -
  have e0: "embedding (raw_doc 0 payload1) = Missing" "embedding (raw_doc 1 payload2) = Missing"
    by (simp_all add: raw_doc_def)
  have "createEmbedding env_flaky (caseText (raw_doc 0 payload1))
          = Inl ''Failed to create embedding: Request failed with status code 429''"
    by (simp add: createEmbedding_def env_flaky_def env_up_def flaky_texts)
  moreover have "createEmbedding env_flaky (caseText (raw_doc 1 payload2)) = Inr [Fin 1, Fin 0]"
    by (simp add: createEmbedding_def env_flaky_def env_up_def flaky_texts del: One_nat_def)
  ultimately show ?thesis
    by (simp add: store_two_def reembed_def e0 del: One_nat_def)
qed

lemma sync_run:
  "fetchAndIndexCases env_sync store_one sync_queries 5 =
     ([raw_doc 0 payload1, new_doc 1 (withYear env_sync payload2)],
      \<lparr>r_success = True,
       r_stats = \<lparr>searchedQueries = 3, casesFound = 3, casesFetched = 2, casesIndexed = 2,
                  errors = 2\<rparr>,
       r_indexed = 2, r_failed = 2,
       r_cases = [raw_doc 0 payload1, new_doc 1 (withYear env_sync payload2)],
       r_errors = [DocFailure ''Section 302 IPC'' (Some ''404'') ''Withdrawn''
                     ''Kanoon API: Document not found: 404'',
                   QueryFailure ''dowry''
                     ''Failed to search Kanoon API: timeout of 30000ms exceeded'']\<rparr>)"
  by code_simp

text \<open>
  \<^bold>\<open>C6\<close>. A batch never stops at a failure. \<open>fetchAndIndexCases\<close> processes every query;
  every item it attempts (a query whose search throws, or a document within the limit of a
  query whose search succeeds) ends as exactly one saved case or exactly one failure record,
  a failed search appending the record of the query and its message, a failed detail fetch
  the record of the query, the document identifier, its title and the message.
  \<open>indexAllCases\<close> embeds every document without an \<open>embedding\<close> field whose own embedding
  call succeeds and leaves the others as they were.
\<close>

theorem batch_resilience:
  "searchedQueries (r_stats (snd (fetchAndIndexCases e db0 queries limit))) = length queries
   \<and> length (r_cases (snd (fetchAndIndexCases e db0 queries limit)))
       + length (r_errors (snd (fetchAndIndexCases e db0 queries limit)))
       = sum_list (map (attempted e limit) queries)
   \<and> r_failed (snd (fetchAndIndexCases e db0 queries limit))
       = length (r_errors (snd (fetchAndIndexCases e db0 queries limit)))
   \<and> errors (r_stats (snd (fetchAndIndexCases e db0 queries limit)))
       = length (r_errors (snd (fetchAndIndexCases e db0 queries limit)))
   \<and> (searchCases e q = Inl m \<longrightarrow>
        failedCases (processQuery e limit q s) = failedCases s @ [QueryFailure q m]
        \<and> indexedCases (processQuery e limit q s) = indexedCases s
        \<and> db (processQuery e limit q s) = db s)
   \<and> (fetchCaseDetails e (tid doc) True = Inl m' \<longrightarrow>
        failedCases (processDoc e q' doc s') = failedCases s' @ [DocFailure q' (tid doc) (sd_title doc) m']
        \<and> indexedCases (processDoc e q' doc s') = indexedCases s'
        \<and> db (processDoc e q' doc s') = db s')
   \<and> (distinct (map doc_id db1) \<longrightarrow>
        indexAllCases e db1 = (length (find_embedding_exists False db1), map (reembed e) db1))"
  using report_tallies [of e db0 queries limit]
        processQuery_search_fails [of e q m limit s]
        processDoc_fetch_fails [of e doc m' q' s']
        indexAllCases_map [of db1 e]
  by blast

theorem batch_resilience_witness:
  "searchedQueries (r_stats (snd (fetchAndIndexCases env_sync store_one sync_queries 5))) = 3
   \<and> length (r_cases (snd (fetchAndIndexCases env_sync store_one sync_queries 5)))
       + length (r_errors (snd (fetchAndIndexCases env_sync store_one sync_queries 5))) = 4
   \<and> r_errors (snd (fetchAndIndexCases env_sync store_one sync_queries 5))
       = [DocFailure ''Section 302 IPC'' (Some ''404'') ''Withdrawn''
            ''Kanoon API: Document not found: 404'',
          QueryFailure ''dowry'' ''Failed to search Kanoon API: timeout of 30000ms exceeded'']
   \<and> failedCases (processQuery env_sync 5 ''dowry'' (sync_init store_one))
       = [QueryFailure ''dowry'' ''Failed to search Kanoon API: timeout of 30000ms exceeded'']
   \<and> failedCases (processDoc env_sync ''Section 302 IPC'' hitB (sync_init store_one))
       = [DocFailure ''Section 302 IPC'' (Some ''404'') ''Withdrawn''
            ''Kanoon API: Document not found: 404'']
   \<and> indexAllCases env_flaky store_two
       = (2, [raw_doc 0 payload1, (raw_doc 1 payload2)\<lparr>embedding := Vec [Fin 1, Fin 0]\<rparr>])"
proof -
  have h1: "searchCases env_sync ''dowry''
              = Inl ''Failed to search Kanoon API: timeout of 30000ms exceeded''"
    by (simp add: env_sync_def)
  have h2: "fetchCaseDetails env_sync (tid hitB) True = Inl ''Kanoon API: Document not found: 404''"
    by (simp add: env_sync_def hitB_def)
  have h3: "distinct (map doc_id store_two)"
    by (simp add: store_two_def raw_doc_def new_doc_def)
  have n: "length sync_queries = 3" "sum_list (map (attempted env_sync 5) sync_queries) = 4"
    by (simp_all add: sync_queries_def attempted_def env_sync_def)
  have f0: "failedCases (sync_init store_one) = []" "tid hitB = Some ''404''"
           "sd_title hitB = ''Withdrawn''"
    by (simp_all add: sync_init_def hitB_def)
  have errs: "r_errors (snd (fetchAndIndexCases env_sync store_one sync_queries 5))
       = [DocFailure ''Section 302 IPC'' (Some ''404'') ''Withdrawn''
            ''Kanoon API: Document not found: 404'',
          QueryFailure ''dowry'' ''Failed to search Kanoon API: timeout of 30000ms exceeded'']"
    by (simp add: sync_run)
  have m0: "length (find_embedding_exists False store_two) = 2"
    by (simp add: find_embedding_exists_def store_two_def raw_doc_def)
  note m1 = flaky_run
  from batch_resilience
         [where e = env_sync and ?db0.0 = store_one and queries = sync_queries and limit = 5
            and q = "''dowry''" and m = "''Failed to search Kanoon API: timeout of 30000ms exceeded''"
            and s = "sync_init store_one" and doc = hitB
            and m' = "''Kanoon API: Document not found: 404''" and q' = "''Section 302 IPC''"
            and s' = "sync_init store_one" and ?db1.0 = "[]"]
       batch_resilience [where e = env_flaky and ?db1.0 = store_two and ?db0.0 = "[]"
            and queries = "[]" and limit = 0 and q = "[]" and m = "[]" and s = "sync_init []"
            and doc = hitB and m' = "[]" and q' = "[]" and s' = "sync_init []"]
       h1 h2 h3 n f0 errs m0 m1
  show ?thesis by simp
qed



section \<open>Parsing the analysis\<close>

lemma set_add_nonempty: "set_add x xs \<noteq> []"
  by (cases "x \<in> set xs") (auto simp: set_add_def)

lemma fold_set_add_nonempty: "acc \<noteq> [] \<Longrightarrow> fold set_add ms acc \<noteq> []"
proof (induction ms arbitrary: acc)
  case Nil
  then show ?case by simp
next
  case (Cons m ms)
  have "fold set_add ms (set_add m acc) \<noteq> []"
    by (rule Cons.IH) (rule set_add_nonempty)
  then show ?case by simp
qed

lemma fold_set_add_empty: "(fold set_add ms [] = []) = (ms = [])"
proof (cases ms)
  case Nil
  then show ?thesis by simp
next
  case (Cons m ms')
  have "fold set_add ms' (set_add m []) \<noteq> []"
    by (rule fold_set_add_nonempty) (rule set_add_nonempty)
  with Cons show ?thesis by simp
qed

lemma parse_sections:
  "suggestedIPCs (parseAnalysisResponse now (Some r))
     = (if execAll ipcPattern r = [] then [''Analysis required'']
        else fold set_add (map sectionLabel (execAll ipcPattern r)) [])
   \<and> confidence (parseAnalysisResponse now (Some r))
     = (if execAll ipcPattern r = [] then 0.6 else 0.9)"
  by (simp add: parseAnalysisResponse_def Let_def fold_set_add_empty)

lemma parse_fields:
  "possibleVerdict (parseAnalysisResponse now (Some r))
     = (case matchGroup verdictPattern r of Some g \<Rightarrow> firstLine (trim g) | None \<Rightarrow> ''Analysis required'')
   \<and> riskLevel (parseAnalysisResponse now (Some r))
     = (case matchGroup riskPattern r of Some g \<Rightarrow> g | None \<Rightarrow> ''Medium'')"
  by (simp add: parseAnalysisResponse_def Let_def)

lemma parse_null:
  "parseAnalysisResponse now None =
     \<lparr>suggestedIPCs = [], a_summary = None, a_analysis = None, keyArguments = [],
      possibleVerdict = ''Analysis required'', riskLevel = ''Medium'',
      recommendations = [], confidence = 0.5, analyzedAt = now\<rparr>"
  by (simp add: parseAnalysisResponse_def)

lemma no_section_reply_ipc: "execAll ipcPattern reply_no_section = []"
  by code_simp

lemma no_section_reply_verdict: "matchGroup verdictPattern reply_no_section = Some ''Guilty''"
  by code_simp

lemma no_section_reply_risk: "matchGroup riskPattern reply_no_section = Some ''High''"
  by code_simp

lemma guilty_line: "firstLine (trim ''Guilty'') = ''Guilty''"
  by code_simp

lemmas no_section_reply =
  no_section_reply_ipc no_section_reply_verdict no_section_reply_risk guilty_line

lemma section_reply_ipc: "execAll ipcPattern reply_section = [''405'']"
  by code_simp

lemma plain_reply_ipc: "execAll ipcPattern reply_plain = []"
  by code_simp

lemma plain_reply_verdict: "matchGroup verdictPattern reply_plain = None"
  by code_simp

lemma plain_reply_risk: "matchGroup riskPattern reply_plain = None"
  by code_simp

lemmas section_reply = section_reply_ipc plain_reply_ipc plain_reply_verdict plain_reply_risk

text \<open>
  \<^bold>\<open>C3\<close>, as stated: when no section mention is extracted the confidence is \<open>0.60\<close>,
  \<open>suggestedIPCs\<close> is \<open>["Analysis required"]\<close>, the verdict is \<open>"Analysis required"\<close> and the
  risk level is \<open>"Medium"\<close>. It fails for a response that names no section but has a
  verdict line and a risk line: the verdict and the risk level are read from their own
  labels.
\<close>

theorem parse_defaults_not_tied:
  "execAll ipcPattern reply_no_section = []
   \<and> confidence (parseAnalysisResponse 0 (Some reply_no_section)) = 0.6
   \<and> suggestedIPCs (parseAnalysisResponse 0 (Some reply_no_section)) = [''Analysis required'']
   \<and> possibleVerdict (parseAnalysisResponse 0 (Some reply_no_section)) = ''Guilty''
   \<and> riskLevel (parseAnalysisResponse 0 (Some reply_no_section)) = ''High''"
  using parse_sections [of 0 reply_no_section] parse_fields [of 0 reply_no_section]
  by (simp add: no_section_reply)

text \<open>
  \<^bold>\<open>C3\<close>, amended: the confidence is \<open>0.90\<close> when at least one section mention was extracted
  and \<open>0.60\<close> when none was, in which case \<open>suggestedIPCs\<close> is \<open>["Analysis required"]\<close>; whatever
  the sections, the verdict is \<open>"Analysis required"\<close> when no verdict label matches and the
  risk level \<open>"Medium"\<close> when no risk label matches; the confidence is \<open>0.5\<close> when parsing
  throws (a \<open>null\<close> response), and it has no other value.
\<close>

theorem parse_confidence_levels:
  "(execAll ipcPattern r \<noteq> [] \<longrightarrow>
      confidence (parseAnalysisResponse now (Some r)) = 0.9
      \<and> suggestedIPCs (parseAnalysisResponse now (Some r))
          = fold set_add (map sectionLabel (execAll ipcPattern r)) [])
   \<and> (execAll ipcPattern r = [] \<longrightarrow>
      confidence (parseAnalysisResponse now (Some r)) = 0.6
      \<and> suggestedIPCs (parseAnalysisResponse now (Some r)) = [''Analysis required''])
   \<and> (matchGroup verdictPattern r = None \<longrightarrow>
      possibleVerdict (parseAnalysisResponse now (Some r)) = ''Analysis required'')
   \<and> (matchGroup riskPattern r = None \<longrightarrow>
      riskLevel (parseAnalysisResponse now (Some r)) = ''Medium'')
   \<and> confidence (parseAnalysisResponse now None) = 0.5
   \<and> suggestedIPCs (parseAnalysisResponse now None) = []
   \<and> (confidence (parseAnalysisResponse now response) = 0.9
        \<or> confidence (parseAnalysisResponse now response) = 0.6
        \<or> confidence (parseAnalysisResponse now response) = 0.5)"
proof (intro conjI impI)
  assume "execAll ipcPattern r \<noteq> []"
  then show "confidence (parseAnalysisResponse now (Some r)) = 0.9"
    and "suggestedIPCs (parseAnalysisResponse now (Some r))
          = fold set_add (map sectionLabel (execAll ipcPattern r)) []"
    by (simp_all add: parseAnalysisResponse_def Let_def fold_set_add_empty)
next
  assume "execAll ipcPattern r = []"
  then show "confidence (parseAnalysisResponse now (Some r)) = 0.6"
    and "suggestedIPCs (parseAnalysisResponse now (Some r)) = [''Analysis required'']"
    by (simp_all add: parseAnalysisResponse_def Let_def)
next
  assume "matchGroup verdictPattern r = None"
  then show "possibleVerdict (parseAnalysisResponse now (Some r)) = ''Analysis required''"
    by (simp add: parse_fields)
next
  assume "matchGroup riskPattern r = None"
  then show "riskLevel (parseAnalysisResponse now (Some r)) = ''Medium''"
    by (simp add: parse_fields)
next
  show "confidence (parseAnalysisResponse now None) = 0.5"
    and "suggestedIPCs (parseAnalysisResponse now None) = []"
    by (simp_all add: parse_null)
next
  show "confidence (parseAnalysisResponse now response) = 0.9
        \<or> confidence (parseAnalysisResponse now response) = 0.6
        \<or> confidence (parseAnalysisResponse now response) = 0.5"
  proof (cases response)
    case None
    then show ?thesis by (simp add: parse_null)
  next
    case (Some t)
    then show ?thesis using parse_sections [of now t] by simp
  qed
qed

theorem parse_confidence_levels_witness:
  "execAll ipcPattern reply_section \<noteq> []
   \<and> confidence (parseAnalysisResponse 0 (Some reply_section)) = 0.9
   \<and> suggestedIPCs (parseAnalysisResponse 0 (Some reply_section)) = [''IPC Section 405'']
   \<and> execAll ipcPattern reply_plain = []
   \<and> matchGroup verdictPattern reply_plain = None
   \<and> matchGroup riskPattern reply_plain = None
   \<and> confidence (parseAnalysisResponse 0 (Some reply_plain)) = 0.6
   \<and> suggestedIPCs (parseAnalysisResponse 0 (Some reply_plain)) = [''Analysis required'']
   \<and> possibleVerdict (parseAnalysisResponse 0 (Some reply_plain)) = ''Analysis required''
   \<and> riskLevel (parseAnalysisResponse 0 (Some reply_plain)) = ''Medium''
   \<and> confidence (parseAnalysisResponse 0 None) = 0.5"
  using parse_confidence_levels [of reply_section 0 None]
        parse_confidence_levels [of reply_plain 0 None]
  by (simp add: section_reply set_add_def sectionLabel_def)


section \<open>RAG analysis\<close>

lemma analyzeWithRAG_main_call:
  "analyzeWithRAG e db0 d hint =
     (case callGrokLLM e (analysisPrompt e db0 d hint) LEGAL_SYSTEM_PROMPT of
        Inl m \<Rightarrow> Inl m
      | Inr responseText \<Rightarrow>
          Inr \<lparr>success = True, rr_caseType = resolveCaseType e d hint,
               rr_analysis = parseAnalysisResponse (clock e) responseText,
               retrievedCases =
                 map summarize
                   (localRetrieval e db0 (resolveCaseType e d hint @ '' case: '' @ d)
                    @ liveRetrieval e d),
               recommendedLawyers = findBestLawyers e (resolveCaseType e d hint),
               fullResponse = responseText\<rparr>)"
  unfolding analyzeWithRAG_def analysisPrompt_def Let_def by (rule refl)

lemma classify_fallback:
  "callGrokLLM e (classifyPrompt d) classifierSystemPrompt = Inl m \<Longrightarrow>
   classifyCaseType e d = ''General''"
  by (simp add: classifyCaseType_def)

lemma resolve_fallback:
  "hint = None \<or> hint = Some ''General'' \<Longrightarrow>
   callGrokLLM e (classifyPrompt d) classifierSystemPrompt = Inl m \<Longrightarrow>
   resolveCaseType e d hint = ''General''"
  by (auto simp: resolveCaseType_def classify_fallback)

lemma prompts_differ: "classifierSystemPrompt \<noteq> LEGAL_SYSTEM_PROMPT"
  by code_simp

lemma rag_calls:
  "callGrokLLM env_rag (classifyPrompt partner_case) classifierSystemPrompt
     = Inl ''timeout of 60000ms exceeded''"
  "callGrokLLM env_rag (analysisPrompt env_rag [] partner_case None) LEGAL_SYSTEM_PROMPT
     = Inr (Some reply_section)"
  "callGrokLLM env_up (analysisPrompt env_up [] partner_case None) LEGAL_SYSTEM_PROMPT
     = Inl ''timeout of 60000ms exceeded''"
  by (simp_all add: callGrokLLM_def env_rag_def env_up_def prompts_differ)

text \<open>
  \<^bold>\<open>C4\<close>. In \<open>analyzeWithRAG\<close> a failed classification call is replaced by the category
  \<open>General\<close> and the analysis goes on to its result, whereas a failure of the main analysis
  call is the error of the whole call, with the same message, and no result is produced.
\<close>

theorem analyzeWithRAG_failure_policy:
  "(callGrokLLM e (classifyPrompt d) classifierSystemPrompt = Inl m \<longrightarrow>
      classifyCaseType e d = ''General'')
   \<and> ((hint = None \<or> hint = Some ''General'')
        \<and> callGrokLLM e (classifyPrompt d) classifierSystemPrompt = Inl m
        \<and> callGrokLLM e (analysisPrompt e db0 d hint) LEGAL_SYSTEM_PROMPT = Inr t \<longrightarrow>
      (\<exists>r. analyzeWithRAG e db0 d hint = Inr r \<and> success r \<and> rr_caseType r = ''General''
           \<and> rr_analysis r = parseAnalysisResponse (clock e) t \<and> fullResponse r = t))
   \<and> (callGrokLLM e (analysisPrompt e db0 d hint) LEGAL_SYSTEM_PROMPT = Inl m' \<longrightarrow>
      analyzeWithRAG e db0 d hint = Inl m')"
proof (intro conjI impI)
  assume "callGrokLLM e (classifyPrompt d) classifierSystemPrompt = Inl m"
  then show "classifyCaseType e d = ''General''" by (rule classify_fallback)
next
  assume a: "(hint = None \<or> hint = Some ''General'')
        \<and> callGrokLLM e (classifyPrompt d) classifierSystemPrompt = Inl m
        \<and> callGrokLLM e (analysisPrompt e db0 d hint) LEGAL_SYSTEM_PROMPT = Inr t"
  then have "resolveCaseType e d hint = ''General''"
    using resolve_fallback [of hint e d m] by blast
  with a show "\<exists>r. analyzeWithRAG e db0 d hint = Inr r \<and> success r \<and> rr_caseType r = ''General''
           \<and> rr_analysis r = parseAnalysisResponse (clock e) t \<and> fullResponse r = t"
    by (simp add: analyzeWithRAG_main_call)
next
  assume "callGrokLLM e (analysisPrompt e db0 d hint) LEGAL_SYSTEM_PROMPT = Inl m'"
  then show "analyzeWithRAG e db0 d hint = Inl m'"
    by (simp add: analyzeWithRAG_main_call)
qed

theorem analyzeWithRAG_failure_policy_witness:
  "classifyCaseType env_rag partner_case = ''General''
   \<and> (\<exists>r. analyzeWithRAG env_rag [] partner_case None = Inr r \<and> success r
           \<and> rr_caseType r = ''General''
           \<and> rr_analysis r = parseAnalysisResponse (clock env_rag) (Some reply_section)
           \<and> fullResponse r = Some reply_section)
   \<and> analyzeWithRAG env_up [] partner_case None = Inl ''timeout of 60000ms exceeded''"
  using analyzeWithRAG_failure_policy
          [where e = env_rag and d = partner_case and m = "''timeout of 60000ms exceeded''"
             and hint = None and ?db0.0 = "[]" and t = "Some reply_section" and m' = "[]"]
        analyzeWithRAG_failure_policy
          [where e = env_up and d = partner_case and m = "[]" and hint = None
             and ?db0.0 = "[]" and t = None and m' = "''timeout of 60000ms exceeded''"]
        rag_calls
  by simp


end
